theory Spec2Isabelle
  imports Main
begin

section \<open>The vault store of server.js\<close>

text \<open>
  The PLM backend keeps its state in SQLite tables. The model is one record per table
  row and one record, \<open>store\<close>, holding the tables as lists in insertion order.
  Only the columns read or written by the vault rules are kept: descriptive metadata of
  parts and assemblies (name, description, material, vendor, criticality,
  lifecycle_state, tags, updated_at) is written by the create and update handlers and
  read by no rule, so it is left out, and with it the two metadata update handlers,
  which touch nothing else. Row ids are natural numbers, user ids are strings,
  \<open>CURRENT_TIMESTAMP\<close> is a natural number handed to each handler.

  The tables \<open>part_versions\<close> and \<open>assembly_versions\<close> have the same columns but for
  the name of the parent column (\<open>part_id\<close>, \<open>assembly_id\<close>); both use
  \<open>version_row\<close>, with the parent in \<open>item_id\<close>.

  The schema declares foreign keys, but the connection never turns their enforcement
  on, so no insert or delete is checked against another table.
\<close>

datatype role = Admin | Designer | Approver

record user =
  u_id :: string
  u_role :: role

datatype vstatus = Working | Frozen

record version_row =
  vid :: nat
  item_id :: nat
  version_label :: string
  status :: vstatus
  storage_path :: "string option"
  working_path :: "string option"
  change_notes :: "string option"
  frozen_by :: "string option"
  frozen_at :: "nat option"
  created_at :: nat

record part_row =
  pid :: nat
  part_code :: string
  p_owner_id :: string

record assembly_row =
  aid :: nat
  assembly_code :: string
  a_owner_id :: string

record edge =
  assembly_version_id :: nat
  part_version_id :: nat

record permission =
  perm_part_id :: nat
  perm_user_id :: string
  can_edit :: bool

datatype rstatus = Pending | Approved | Rejected

record edit_request =
  er_id :: nat
  er_part_id :: nat
  er_requester_id :: string
  er_status :: rstatus
  er_reason :: "string option"
  er_decided_by :: "string option"
  er_decided_at :: "nat option"

datatype item_type = PartItem | AssemblyItem

record release_request =
  rr_id :: nat
  rr_item_type :: item_type
  rr_item_version_id :: nat
  rr_requester_id :: string
  rr_status :: rstatus
  rr_reason :: "string option"
  rr_decided_by :: "string option"
  rr_decided_at :: "nat option"

text \<open>
  Every table with a row id is \<open>AUTOINCREMENT\<close>: the next id is one more than the
  largest id ever handed out, which the \<open>seq_\<close> fields remember.
\<close>

record store =
  parts :: "part_row list"
  part_versions :: "version_row list"
  assemblies :: "assembly_row list"
  assembly_versions :: "version_row list"
  assembly_parts :: "edge list"
  part_permissions :: "permission list"
  edit_requests :: "edit_request list"
  release_requests :: "release_request list"
  seq_parts :: nat
  seq_part_versions :: nat
  seq_assemblies :: nat
  seq_assembly_versions :: nat
  seq_edit_requests :: nat
  seq_release_requests :: nat

definition empty_store :: store where
  "empty_store = \<lparr>parts = [], part_versions = [], assemblies = [], assembly_versions = [],
     assembly_parts = [], part_permissions = [], edit_requests = [], release_requests = [],
     seq_parts = 0, seq_part_versions = 0, seq_assemblies = 0, seq_assembly_versions = 0,
     seq_edit_requests = 0, seq_release_requests = 0\<rparr>"

subsection \<open>Responses\<close>

text \<open>
  One constructor per kind of error response; \<open>http_status\<close> is the status code the
  handlers send with it. The rule violations all go out as 400.
\<close>

datatype error =
    Forbidden
  | MissingFields
  | TooLong
  | InvalidEnum
  | InvalidItemType
  | CodeExists
  | PreviousNotFrozen
  | PartVersionsNotFound
  | PartVersionsNotFrozen
  | ReferencedByAssemblies
  | NotFound
  | DbError

fun http_status :: "error \<Rightarrow> nat" where
  "http_status Forbidden = 403"
| "http_status NotFound = 404"
| "http_status DbError = 500"
| "http_status _ = 400"

datatype reply =
    ItemCreated nat
  | VersionCreated nat nat string
  | RequestCreated nat
  | Done
  | BulkFrozen nat
  | BulkDeleted nat
  | Comparison "version_row option" "version_row option"

type_synonym response = "error + reply"

text \<open>
  A handler issues its SQL statements one after the other and branches on the error
  each callback receives. \<open>fl k\<close> says that the \<open>k\<close>-th statement of the handler
  that has an error branch fails (counted from 0 in source order, the statements of
  \<open>canEditPart\<close> first). Statements issued without a callback have no error branch in
  the source and none here.
\<close>

type_synonym faults = "nat \<Rightarrow> bool"

definition no_faults :: faults where
  "no_faults = (\<lambda>k. False)"

subsection \<open>JavaScript and SQL helpers\<close>

text \<open>\<open>x || null\<close> and \<open>!x\<close> on an optional string: absent and empty are both falsy.\<close>

definition truthy :: "string option \<Rightarrow> bool" where
  "truthy x = (case x of None \<Rightarrow> False | Some t \<Rightarrow> t \<noteq> [])"

definition or_null :: "string option \<Rightarrow> string option" where
  "or_null x = (if truthy x then x else None)"

text \<open>\<open>!n\<close> on an optional number: absent and 0 are both falsy.\<close>

definition truthy_num :: "nat option \<Rightarrow> bool" where
  "truthy_num x = (case x of None \<Rightarrow> False | Some n \<Rightarrow> n \<noteq> 0)"

definition coalesce :: "'a option \<Rightarrow> 'a option \<Rightarrow> 'a option" where
  "coalesce a b = (case a of Some x \<Rightarrow> Some x | None \<Rightarrow> b)"

text \<open>The decimal digits of a number, as the template string \<open>`V${n}`\<close> prints it.\<close>

definition digit_char :: "nat \<Rightarrow> char" where
  "digit_char d = ''0123456789'' ! d"

function show_nat :: "nat \<Rightarrow> string" where
  "show_nat n = (if n < 10 then [digit_char n] else show_nat (n div 10) @ [digit_char (n mod 10)])"
  by pat_completeness auto
termination
  by (relation "measure (\<lambda>n. n)") auto

declare show_nat.simps [simp del]

text \<open>\<open>UPDATE t SET ... WHERE P\<close> and the \<open>this.changes\<close> it reports.\<close>

definition update_where :: "('a \<Rightarrow> bool) \<Rightarrow> ('a \<Rightarrow> 'a) \<Rightarrow> 'a list \<Rightarrow> 'a list" where
  "update_where P f rows = map (\<lambda>r. if P r then f r else r) rows"

definition changes :: "('a \<Rightarrow> bool) \<Rightarrow> 'a list \<Rightarrow> nat" where
  "changes P rows = length (filter P rows)"

text \<open>\<open>DELETE FROM t WHERE P\<close>.\<close>

definition delete_where :: "('a \<Rightarrow> bool) \<Rightarrow> 'a list \<Rightarrow> 'a list" where
  "delete_where P rows = filter (\<lambda>r. \<not> P r) rows"

section \<open>Authorization guard and latest version\<close>

definition isApproverOrAdmin :: "role \<Rightarrow> bool" where
  "isApproverOrAdmin r = (r = Approver \<or> r = Admin)"

text \<open>
  \<open>canEditPart\<close>: an admin may always edit (the part is not even looked up); otherwise
  the owner may, and then whoever holds a grant with \<open>can_edit\<close>.
\<close>

definition canEditPart :: "faults \<Rightarrow> string \<Rightarrow> role \<Rightarrow> nat \<Rightarrow> store \<Rightarrow> error + bool" where
  "canEditPart fl userId r partId s =
     (if r = Admin then Inr True
      else if fl 0 then Inl DbError
      else case find (\<lambda>p. pid p = partId) (parts s) of
          None \<Rightarrow> Inr False
        | Some part \<Rightarrow>
            (if p_owner_id part = userId then Inr True
             else if fl 1 then Inl DbError
             else (case find (\<lambda>g. perm_part_id g = partId \<and> perm_user_id g = userId)
                          (part_permissions s) of
                 None \<Rightarrow> Inr False
               | Some perm \<Rightarrow> Inr (can_edit perm))))"

text \<open>
  \<open>ORDER BY created_at DESC LIMIT 1\<close>: a row with the greatest \<open>created_at\<close>.
  \<open>CURRENT_TIMESTAMP\<close> counts whole seconds, so rows can tie; the query then returns
  the row inserted first, and so does the model: a later row replaces the candidate only
  when its \<open>created_at\<close> is strictly greater.
\<close>

definition newer :: "version_row option \<Rightarrow> version_row \<Rightarrow> version_row option" where
  "newer acc v = (case acc of
       None \<Rightarrow> Some v
     | Some w \<Rightarrow> if created_at w < created_at v then Some v else Some w)"

definition latest_row :: "version_row list \<Rightarrow> version_row option" where
  "latest_row rows = foldl newer None rows"

definition getLatestPartVersion :: "nat \<Rightarrow> store \<Rightarrow> version_row option" where
  "getLatestPartVersion partId s =
     latest_row (filter (\<lambda>v. item_id v = partId) (part_versions s))"

definition getLatestAssemblyVersion :: "nat \<Rightarrow> store \<Rightarrow> version_row option" where
  "getLatestAssemblyVersion assemblyId s =
     latest_row (filter (\<lambda>v. item_id v = assemblyId) (assembly_versions s))"

text \<open>\<open>lastVersion && lastVersion.status !== 'frozen'\<close>.\<close>

definition blocks_new_version :: "version_row option \<Rightarrow> bool" where
  "blocks_new_version lastVersion =
     (case lastVersion of None \<Rightarrow> False | Some v \<Rightarrow> status v \<noteq> Frozen)"

text \<open>A row as \<open>INSERT INTO part_versions\<close> or \<open>assembly_versions\<close> writes it: status
  working, nothing frozen, no storage path.\<close>

definition new_version :: "nat \<Rightarrow> nat \<Rightarrow> string \<Rightarrow> string option \<Rightarrow> string option \<Rightarrow> nat \<Rightarrow> version_row" where
  "new_version i parent label wp notes now =
     \<lparr>vid = i, item_id = parent, version_label = label, status = Working,
      storage_path = None, working_path = wp, change_notes = notes,
      frozen_by = None, frozen_at = None, created_at = now\<rparr>"

definition insert_part_version :: "nat \<Rightarrow> string \<Rightarrow> string option \<Rightarrow> string option \<Rightarrow> nat \<Rightarrow> store \<Rightarrow> store" where
  "insert_part_version partId label wp notes now s =
     s\<lparr>part_versions := part_versions s @ [new_version (seq_part_versions s + 1) partId label wp notes now],
       seq_part_versions := seq_part_versions s + 1\<rparr>"

definition insert_assembly_version :: "nat \<Rightarrow> string \<Rightarrow> string option \<Rightarrow> nat \<Rightarrow> store \<Rightarrow> store" where
  "insert_assembly_version assemblyId label wp now s =
     s\<lparr>assembly_versions := assembly_versions s @ [new_version (seq_assembly_versions s + 1) assemblyId label wp None now],
       seq_assembly_versions := seq_assembly_versions s + 1\<rparr>"

text \<open>\<open>INSERT OR IGNORE\<close> and \<open>INSERT OR REPLACE\<close> on \<open>part_permissions\<close>, whose key is
  \<open>UNIQUE(part_id, user_id)\<close>.\<close>

definition same_grant :: "nat \<Rightarrow> string \<Rightarrow> permission \<Rightarrow> bool" where
  "same_grant partId userId g = (perm_part_id g = partId \<and> perm_user_id g = userId)"

definition grant_or_ignore :: "nat \<Rightarrow> string \<Rightarrow> permission list \<Rightarrow> permission list" where
  "grant_or_ignore partId userId gs =
     (if list_ex (same_grant partId userId) gs then gs
      else gs @ [\<lparr>perm_part_id = partId, perm_user_id = userId, can_edit = True\<rparr>])"

definition grant_or_replace :: "nat \<Rightarrow> string \<Rightarrow> permission list \<Rightarrow> permission list" where
  "grant_or_replace partId userId gs =
     delete_where (same_grant partId userId) gs
       @ [\<lparr>perm_part_id = partId, perm_user_id = userId, can_edit = True\<rparr>]"

section \<open>Parts\<close>

record part_req =
  rq_part_code :: string
  rq_name :: string
  rq_description :: "string option"
  rq_criticality :: "string option"
  rq_working_path :: "string option"

definition VALID_CRITICALITY :: "string list" where
  "VALID_CRITICALITY = [''normal'', ''low'', ''high'', ''critical'']"

definition validateEnum :: "string option \<Rightarrow> string list \<Rightarrow> bool" where
  "validateEnum v allowed = (case v of None \<Rightarrow> True | Some t \<Rightarrow> t = [] \<or> t \<in> set allowed)"

text \<open>
  \<open>POST /api/parts\<close>. The three inserts are separate statements: when the version
  insert fails the part row stays. \<open>part_code\<close> is \<open>UNIQUE\<close>.
\<close>

definition create_part :: "faults \<Rightarrow> user \<Rightarrow> nat \<Rightarrow> part_req \<Rightarrow> store \<Rightarrow> response \<times> store" where
  "create_part fl u now rq s =
     (if u_role u \<noteq> Designer \<and> u_role u \<noteq> Admin then (Inl Forbidden, s)
      else if rq_part_code rq = [] \<or> rq_name rq = [] then (Inl MissingFields, s)
      else if length (rq_part_code rq) > 50 then (Inl TooLong, s)
      else if length (rq_name rq) > 200 then (Inl TooLong, s)
      else if truthy (rq_description rq) \<and> length (the (rq_description rq)) > 2000 then (Inl TooLong, s)
      else if \<not> validateEnum (rq_criticality rq) VALID_CRITICALITY then (Inl InvalidEnum, s)
      else if list_ex (\<lambda>p. part_code p = rq_part_code rq) (parts s) then (Inl CodeExists, s)
      else if fl 0 then (Inl DbError, s)
      else
        let partId = seq_parts s + 1;
            s1 = s\<lparr>parts := parts s @ [\<lparr>pid = partId, part_code = rq_part_code rq, p_owner_id = u_id u\<rparr>],
                   seq_parts := partId\<rparr>
        in if fl 1 then (Inl DbError, s1)
           else
             let s2 = insert_part_version partId ''V1'' (or_null (rq_working_path rq)) None now s1;
                 s3 = s2\<lparr>part_permissions := grant_or_ignore partId (u_id u) (part_permissions s2)\<rparr>
             in (Inr (ItemCreated partId), s3))"

record version_req =
  vr_version_label :: "string option"
  vr_working_path :: "string option"
  vr_change_notes :: "string option"

definition count_part_versions :: "nat \<Rightarrow> store \<Rightarrow> nat" where
  "count_part_versions partId s = length (filter (\<lambda>v. item_id v = partId) (part_versions s))"

definition next_label :: "string option \<Rightarrow> nat \<Rightarrow> string" where
  "next_label supplied n = (if truthy supplied then the supplied else ''V'' @ show_nat (n + 1))"

text \<open>\<open>POST /api/parts/:part_id/versions\<close>.\<close>

definition create_part_version :: "faults \<Rightarrow> user \<Rightarrow> nat \<Rightarrow> nat \<Rightarrow> version_req \<Rightarrow> store \<Rightarrow> response \<times> store" where
  "create_part_version fl u now partId rq s =
     (case canEditPart fl (u_id u) (u_role u) partId s of
        Inl e \<Rightarrow> (Inl DbError, s)
      | Inr allowed \<Rightarrow>
          if \<not> allowed then (Inl Forbidden, s)
          else if fl 2 then (Inl DbError, s)
          else if blocks_new_version (getLatestPartVersion partId s) then (Inl PreviousNotFrozen, s)
          else if fl 3 then (Inl DbError, s)
          else
            let nextLabel = next_label (vr_version_label rq) (count_part_versions partId s)
            in if fl 4 then (Inl DbError, s)
               else (Inr (VersionCreated (seq_part_versions s + 1) partId nextLabel),
                     insert_part_version partId nextLabel (or_null (vr_working_path rq))
                       (or_null (vr_change_notes rq)) now s))"

text \<open>
  \<open>POST /api/parts/:part_id/versions/:version_id/freeze\<close>. The \<open>UPDATE\<close> is scoped
  by row id and parent only; \<open>freeze_set\<close> is its \<open>SET\<close> clause.
\<close>

definition freeze_set :: "string \<Rightarrow> nat \<Rightarrow> version_row \<Rightarrow> version_row" where
  "freeze_set userId now v =
     v\<lparr>status := Frozen, storage_path := coalesce (storage_path v) (working_path v),
       frozen_by := Some userId, frozen_at := Some now\<rparr>"

definition freeze_part_version :: "faults \<Rightarrow> user \<Rightarrow> nat \<Rightarrow> nat \<Rightarrow> nat \<Rightarrow> store \<Rightarrow> response \<times> store" where
  "freeze_part_version fl u now partId versionId s =
     (if \<not> isApproverOrAdmin (u_role u) then (Inl Forbidden, s)
      else if fl 0 then (Inl DbError, s)
      else
        let hit = (\<lambda>v. vid v = versionId \<and> item_id v = partId);
            s1 = s\<lparr>part_versions := update_where hit (freeze_set (u_id u) now) (part_versions s)\<rparr>
        in if changes hit (part_versions s) = 0 then (Inl NotFound, s1)
           else (Inr Done, s1))"

text \<open>\<open>POST /api/parts/:part_id/rollback\<close>: a new working version, nothing reverted.\<close>

definition rollback_part :: "faults \<Rightarrow> user \<Rightarrow> nat \<Rightarrow> nat \<Rightarrow> nat option \<Rightarrow> store \<Rightarrow> response \<times> store" where
  "rollback_part fl u now partId version_id s =
     (if \<not> truthy_num version_id then (Inl MissingFields, s)
      else case canEditPart fl (u_id u) (u_role u) partId s of
        Inl e \<Rightarrow> (Inl DbError, s)
      | Inr allowed \<Rightarrow>
          if \<not> allowed then (Inl Forbidden, s)
          else if fl 2 then (Inl DbError, s)
          else if length (filter (\<lambda>e. part_version_id e = the version_id) (assembly_parts s)) > 0
            then (Inl ReferencedByAssemblies, s)
          else if fl 3 then (Inl DbError, s)
          else if blocks_new_version (getLatestPartVersion partId s) then (Inl PreviousNotFrozen, s)
          else if fl 4 then (Inl DbError, s)
          else
            let nextLabel = ''V'' @ show_nat (count_part_versions partId s + 1)
            in if fl 5 then (Inl DbError, s)
               else (Inr (VersionCreated (seq_part_versions s + 1) partId nextLabel),
                     insert_part_version partId nextLabel None None now s))"

text \<open>
  \<open>DELETE /api/parts/:part_id\<close>. The count joins \<open>assembly_parts\<close> with
  \<open>part_versions\<close>. The four deletes run in one transaction, rolled back when the
  last one fails.
\<close>

definition part_reference_count :: "nat \<Rightarrow> store \<Rightarrow> nat" where
  "part_reference_count partId s =
     length [(e, v). e \<leftarrow> assembly_parts s, v \<leftarrow> part_versions s,
               part_version_id e = vid v \<and> item_id v = partId]"

definition delete_part :: "faults \<Rightarrow> user \<Rightarrow> nat \<Rightarrow> store \<Rightarrow> response \<times> store" where
  "delete_part fl u partId s =
     (if u_role u \<noteq> Admin then (Inl Forbidden, s)
      else if fl 0 then (Inl DbError, s)
      else if part_reference_count partId s > 0 then (Inl ReferencedByAssemblies, s)
      else
        let s1 = s\<lparr>part_permissions := delete_where (\<lambda>g. perm_part_id g = partId) (part_permissions s)\<rparr>;
            s2 = s1\<lparr>edit_requests := delete_where (\<lambda>r. er_part_id r = partId) (edit_requests s1)\<rparr>;
            s3 = s2\<lparr>part_versions := delete_where (\<lambda>v. item_id v = partId) (part_versions s2)\<rparr>
        in if fl 1 then (Inl DbError, s)
           else (Inr Done, s3\<lparr>parts := delete_where (\<lambda>p. pid p = partId) (parts s3)\<rparr>))"

section \<open>Assemblies\<close>

text \<open>
  \<open>SELECT id, status FROM part_versions WHERE id IN (...)\<close>: every row is returned once,
  however often its id is listed.
\<close>

definition resolve_part_versions :: "nat list \<Rightarrow> store \<Rightarrow> version_row list" where
  "resolve_part_versions ids s = filter (\<lambda>v. vid v \<in> set ids) (part_versions s)"

text \<open>One \<open>INSERT INTO assembly_parts\<close> with a value pair per listed id.\<close>

definition insert_edges :: "nat \<Rightarrow> nat list \<Rightarrow> store \<Rightarrow> store" where
  "insert_edges assemblyVersionId ids s =
     s\<lparr>assembly_parts := assembly_parts s
          @ map (\<lambda>i. \<lparr>assembly_version_id = assemblyVersionId, part_version_id = i\<rparr>) ids\<rparr>"

record assembly_req =
  ar_assembly_code :: string
  ar_name :: string
  ar_part_version_ids :: "nat list"
  ar_working_path :: "string option"
  ar_description :: "string option"

text \<open>
  \<open>POST /api/assemblies\<close>. The assembly row, its first version and the edges are
  three statements with no transaction around them.
\<close>

definition create_assembly :: "faults \<Rightarrow> user \<Rightarrow> nat \<Rightarrow> assembly_req \<Rightarrow> store \<Rightarrow> response \<times> store" where
  "create_assembly fl u now rq s =
     (if u_role u \<noteq> Designer \<and> u_role u \<noteq> Admin then (Inl Forbidden, s)
      else if ar_assembly_code rq = [] \<or> ar_name rq = [] \<or> length (ar_part_version_ids rq) = 0
        then (Inl MissingFields, s)
      else if length (ar_assembly_code rq) > 50 then (Inl TooLong, s)
      else if length (ar_name rq) > 200 then (Inl TooLong, s)
      else if truthy (ar_description rq) \<and> length (the (ar_description rq)) > 2000 then (Inl TooLong, s)
      else if fl 0 then (Inl DbError, s)
      else
        let rows = resolve_part_versions (ar_part_version_ids rq) s
        in if length rows \<noteq> length (ar_part_version_ids rq) then (Inl PartVersionsNotFound, s)
           else if find (\<lambda>row. status row \<noteq> Frozen) rows \<noteq> None then (Inl PartVersionsNotFrozen, s)
           else if list_ex (\<lambda>a. assembly_code a = ar_assembly_code rq) (assemblies s) then (Inl CodeExists, s)
           else if fl 1 then (Inl DbError, s)
           else
             let assemblyId = seq_assemblies s + 1;
                 s1 = s\<lparr>assemblies := assemblies s
                          @ [\<lparr>aid = assemblyId, assembly_code = ar_assembly_code rq, a_owner_id = u_id u\<rparr>],
                        seq_assemblies := assemblyId\<rparr>
             in if fl 2 then (Inl DbError, s1)
                else
                  let assemblyVersionId = seq_assembly_versions s1 + 1;
                      s2 = insert_assembly_version assemblyId ''V1'' (or_null (ar_working_path rq)) now s1
                  in if fl 3 then (Inl DbError, s2)
                     else (Inr (ItemCreated assemblyId),
                           insert_edges assemblyVersionId (ar_part_version_ids rq) s2))"

record asm_version_req =
  avr_version_label :: "string option"
  avr_part_version_ids :: "nat list"
  avr_working_path :: "string option"

definition count_assembly_versions :: "nat \<Rightarrow> store \<Rightarrow> nat" where
  "count_assembly_versions assemblyId s =
     length (filter (\<lambda>v. item_id v = assemblyId) (assembly_versions s))"

text \<open>\<open>POST /api/assemblies/:assembly_id/versions\<close>. No role is asked for; the version
  row and the edges are two statements with no transaction around them.\<close>

definition create_assembly_version :: "faults \<Rightarrow> user \<Rightarrow> nat \<Rightarrow> nat \<Rightarrow> asm_version_req \<Rightarrow> store \<Rightarrow> response \<times> store" where
  "create_assembly_version fl u now assemblyId rq s =
     (if length (avr_part_version_ids rq) = 0 then (Inl MissingFields, s)
      else if fl 0 then (Inl DbError, s)
      else if blocks_new_version (getLatestAssemblyVersion assemblyId s) then (Inl PreviousNotFrozen, s)
      else if fl 1 then (Inl DbError, s)
      else
        let rows = resolve_part_versions (avr_part_version_ids rq) s
        in if length rows \<noteq> length (avr_part_version_ids rq) then (Inl PartVersionsNotFound, s)
           else if find (\<lambda>row. status row \<noteq> Frozen) rows \<noteq> None then (Inl PartVersionsNotFrozen, s)
           else if fl 2 then (Inl DbError, s)
           else
             let nextLabel = next_label (avr_version_label rq) (count_assembly_versions assemblyId s)
             in if fl 3 then (Inl DbError, s)
                else
                  let assemblyVersionId = seq_assembly_versions s + 1;
                      s1 = insert_assembly_version assemblyId nextLabel (or_null (avr_working_path rq)) now s
                  in if fl 4 then (Inl DbError, s1)
                     else (Inr (VersionCreated assemblyVersionId assemblyId nextLabel),
                           insert_edges assemblyVersionId (avr_part_version_ids rq) s1))"

text \<open>\<open>POST /api/assemblies/:assembly_id/versions/:version_id/freeze\<close>.\<close>

definition freeze_assembly_version :: "faults \<Rightarrow> user \<Rightarrow> nat \<Rightarrow> nat \<Rightarrow> nat \<Rightarrow> store \<Rightarrow> response \<times> store" where
  "freeze_assembly_version fl u now assemblyId versionId s =
     (if \<not> isApproverOrAdmin (u_role u) then (Inl Forbidden, s)
      else if fl 0 then (Inl DbError, s)
      else
        let hit = (\<lambda>v. vid v = versionId \<and> item_id v = assemblyId);
            s1 = s\<lparr>assembly_versions := update_where hit (freeze_set (u_id u) now) (assembly_versions s)\<rparr>
        in if changes hit (assembly_versions s) = 0 then (Inl NotFound, s1)
           else (Inr Done, s1))"

text \<open>\<open>DELETE /api/assemblies/:assembly_id\<close>: edges, versions and the assembly in one
  transaction, rolled back when the last delete fails.\<close>

definition delete_assembly :: "faults \<Rightarrow> user \<Rightarrow> nat \<Rightarrow> store \<Rightarrow> response \<times> store" where
  "delete_assembly fl u assemblyId s =
     (if u_role u \<noteq> Admin then (Inl Forbidden, s)
      else
        let own = map vid (filter (\<lambda>v. item_id v = assemblyId) (assembly_versions s));
            s1 = s\<lparr>assembly_parts := delete_where (\<lambda>e. assembly_version_id e \<in> set own) (assembly_parts s)\<rparr>;
            s2 = s1\<lparr>assembly_versions := delete_where (\<lambda>v. item_id v = assemblyId) (assembly_versions s1)\<rparr>
        in if fl 0 then (Inl DbError, s)
           else (Inr Done, s2\<lparr>assemblies := delete_where (\<lambda>a. aid a = assemblyId) (assemblies s2)\<rparr>))"

section \<open>Edit requests\<close>

text \<open>\<open>POST /api/parts/:part_id/edit-requests\<close>: the part is not looked up.\<close>

definition create_edit_request :: "faults \<Rightarrow> user \<Rightarrow> nat \<Rightarrow> string option \<Rightarrow> store \<Rightarrow> response \<times> store" where
  "create_edit_request fl u partId reason s =
     (if u_role u \<noteq> Designer then (Inl Forbidden, s)
      else if fl 0 then (Inl DbError, s)
      else
        let i = seq_edit_requests s + 1
        in (Inr (RequestCreated i),
            s\<lparr>edit_requests := edit_requests s
                 @ [\<lparr>er_id = i, er_part_id = partId, er_requester_id = u_id u, er_status = Pending,
                     er_reason = or_null reason, er_decided_by = None, er_decided_at = None\<rparr>],
              seq_edit_requests := i\<rparr>))"

definition decide_edit :: "rstatus \<Rightarrow> string \<Rightarrow> nat \<Rightarrow> edit_request \<Rightarrow> edit_request" where
  "decide_edit d userId now r = r\<lparr>er_status := d, er_decided_by := Some userId, er_decided_at := Some now\<rparr>"

text \<open>\<open>POST /api/edit-requests/:request_id/approve\<close>.\<close>

definition approve_edit_request :: "faults \<Rightarrow> user \<Rightarrow> nat \<Rightarrow> nat \<Rightarrow> store \<Rightarrow> response \<times> store" where
  "approve_edit_request fl u now requestId s =
     (if \<not> isApproverOrAdmin (u_role u) then (Inl Forbidden, s)
      else if fl 0 then (Inl DbError, s)
      else case find (\<lambda>r. er_id r = requestId) (edit_requests s) of
          None \<Rightarrow> (Inl NotFound, s)
        | Some request \<Rightarrow>
            if fl 1 then (Inl DbError, s)
            else
              let s1 = s\<lparr>edit_requests := update_where (\<lambda>r. er_id r = requestId)
                                             (decide_edit Approved (u_id u) now) (edit_requests s)\<rparr>
              in (Inr Done,
                  s1\<lparr>part_permissions := grant_or_replace (er_part_id request) (er_requester_id request)
                                           (part_permissions s1)\<rparr>))"

text \<open>\<open>POST /api/edit-requests/:request_id/reject\<close>.\<close>

definition reject_edit_request :: "faults \<Rightarrow> user \<Rightarrow> nat \<Rightarrow> nat \<Rightarrow> store \<Rightarrow> response \<times> store" where
  "reject_edit_request fl u now requestId s =
     (if \<not> isApproverOrAdmin (u_role u) then (Inl Forbidden, s)
      else if fl 0 then (Inl DbError, s)
      else
        let s1 = s\<lparr>edit_requests := update_where (\<lambda>r. er_id r = requestId)
                                       (decide_edit Rejected (u_id u) now) (edit_requests s)\<rparr>
        in if changes (\<lambda>r. er_id r = requestId) (edit_requests s) = 0 then (Inl NotFound, s1)
           else (Inr Done, s1))"

section \<open>Release requests\<close>

record release_req =
  rl_item_type :: string
  rl_item_version_id :: "nat option"
  rl_reason :: "string option"

text \<open>\<open>POST /api/release-requests\<close>: any caller with a token; the version is not
  looked up.\<close>

definition create_release_request :: "faults \<Rightarrow> user \<Rightarrow> release_req \<Rightarrow> store \<Rightarrow> response \<times> store" where
  "create_release_request fl u rq s =
     (if rl_item_type rq = [] \<or> \<not> truthy_num (rl_item_version_id rq) then (Inl MissingFields, s)
      else if rl_item_type rq \<noteq> ''part'' \<and> rl_item_type rq \<noteq> ''assembly'' then (Inl InvalidItemType, s)
      else if fl 0 then (Inl DbError, s)
      else
        let i = seq_release_requests s + 1
        in (Inr (RequestCreated i),
            s\<lparr>release_requests := release_requests s
                 @ [\<lparr>rr_id = i,
                     rr_item_type = (if rl_item_type rq = ''part'' then PartItem else AssemblyItem),
                     rr_item_version_id = the (rl_item_version_id rq),
                     rr_requester_id = u_id u, rr_status = Pending,
                     rr_reason = or_null (rl_reason rq), rr_decided_by = None, rr_decided_at = None\<rparr>],
              seq_release_requests := i\<rparr>))"

definition decide_release :: "rstatus \<Rightarrow> string \<Rightarrow> nat \<Rightarrow> release_request \<Rightarrow> release_request" where
  "decide_release d userId now r = r\<lparr>rr_status := d, rr_decided_by := Some userId, rr_decided_at := Some now\<rparr>"

text \<open>The \<open>SET\<close> clause of \<open>freezeQuery\<close>.\<close>

definition release_set :: "version_row \<Rightarrow> version_row" where
  "release_set v = v\<lparr>status := Frozen, storage_path := coalesce (storage_path v) (working_path v)\<rparr>"

text \<open>\<open>POST /api/release-requests/:request_id/approve\<close>: the request is marked
  approved, then \<open>freezeQuery\<close> runs on the table its \<open>item_type\<close> names, scoped by row
  id alone.\<close>

definition approve_release_request :: "faults \<Rightarrow> user \<Rightarrow> nat \<Rightarrow> nat \<Rightarrow> store \<Rightarrow> response \<times> store" where
  "approve_release_request fl u now requestId s =
     (if \<not> isApproverOrAdmin (u_role u) then (Inl Forbidden, s)
      else if fl 0 then (Inl DbError, s)
      else case find (\<lambda>r. rr_id r = requestId) (release_requests s) of
          None \<Rightarrow> (Inl NotFound, s)
        | Some request \<Rightarrow>
            if fl 1 then (Inl DbError, s)
            else
              let s1 = s\<lparr>release_requests := update_where (\<lambda>r. rr_id r = requestId)
                                                (decide_release Approved (u_id u) now) (release_requests s)\<rparr>;
                  hit = (\<lambda>v. vid v = rr_item_version_id request)
              in if fl 2 then (Inl DbError, s1)
                 else if rr_item_type request = PartItem
                   then (Inr Done, s1\<lparr>part_versions := update_where hit release_set (part_versions s1)\<rparr>)
                   else (Inr Done, s1\<lparr>assembly_versions := update_where hit release_set (assembly_versions s1)\<rparr>))"

text \<open>\<open>POST /api/release-requests/:request_id/reject\<close>.\<close>

definition reject_release_request :: "faults \<Rightarrow> user \<Rightarrow> nat \<Rightarrow> nat \<Rightarrow> store \<Rightarrow> response \<times> store" where
  "reject_release_request fl u now requestId s =
     (if \<not> isApproverOrAdmin (u_role u) then (Inl Forbidden, s)
      else if fl 0 then (Inl DbError, s)
      else
        let s1 = s\<lparr>release_requests := update_where (\<lambda>r. rr_id r = requestId)
                                          (decide_release Rejected (u_id u) now) (release_requests s)\<rparr>
        in if changes (\<lambda>r. rr_id r = requestId) (release_requests s) = 0 then (Inl NotFound, s1)
           else (Inr Done, s1))"

section \<open>Revision comparison and bulk operations\<close>

text \<open>
  \<open>GET /api/parts/:id/versions/compare\<close>. \<open>v1\<close> and \<open>v2\<close> are query parameters: \<open>None\<close>
  is a parameter that is absent or empty. The join with \<open>users\<close> only adds the
  freezer's name and is left out.
\<close>

definition compare_versions :: "faults \<Rightarrow> nat \<Rightarrow> nat option \<Rightarrow> nat option \<Rightarrow> store \<Rightarrow> response" where
  "compare_versions fl partId v1 v2 s =
     (if v1 = None \<or> v2 = None then Inl MissingFields
      else if fl 0 then Inl DbError
      else
        let rows = filter (\<lambda>pv. (vid pv = the v1 \<or> vid pv = the v2) \<and> item_id pv = partId) (part_versions s)
        in if length rows \<noteq> 2 then Inl NotFound
           else Inr (Comparison (find (\<lambda>r. vid r = the v1) rows) (find (\<lambda>r. vid r = the v2) rows)))"

text \<open>\<open>POST /api/parts/bulk-delete\<close>.\<close>

definition bulk_referenced :: "nat list \<Rightarrow> store \<Rightarrow> string list" where
  "bulk_referenced ids s =
     remdups [part_code p. p \<leftarrow> parts s, pv \<leftarrow> part_versions s, ap \<leftarrow> assembly_parts s,
                item_id pv = pid p \<and> part_version_id ap = vid pv \<and> pid p \<in> set ids]"

definition bulk_delete :: "faults \<Rightarrow> user \<Rightarrow> nat list \<Rightarrow> store \<Rightarrow> response \<times> store" where
  "bulk_delete fl u ids s =
     (if u_role u \<noteq> Admin then (Inl Forbidden, s)
      else if length ids = 0 then (Inl MissingFields, s)
      else if fl 0 then (Inl DbError, s)
      else if length (bulk_referenced ids s) > 0 then (Inl ReferencedByAssemblies, s)
      else
        let s1 = s\<lparr>part_permissions := delete_where (\<lambda>g. perm_part_id g \<in> set ids) (part_permissions s)\<rparr>;
            s2 = s1\<lparr>edit_requests := delete_where (\<lambda>r. er_part_id r \<in> set ids) (edit_requests s1)\<rparr>;
            s3 = s2\<lparr>part_versions := delete_where (\<lambda>v. item_id v \<in> set ids) (part_versions s2)\<rparr>
        in if fl 1 then (Inl DbError, s)
           else (Inr (BulkDeleted (changes (\<lambda>p. pid p \<in> set ids) (parts s3))),
                 s3\<lparr>parts := delete_where (\<lambda>p. pid p \<in> set ids) (parts s3)\<rparr>))"

text \<open>\<open>POST /api/parts/bulk-freeze\<close>: the \<open>UPDATE\<close> asks for \<open>status = 'working'\<close> and
  does not touch \<open>storage_path\<close>.\<close>

definition bulk_set :: "string \<Rightarrow> nat \<Rightarrow> version_row \<Rightarrow> version_row" where
  "bulk_set userId now v = v\<lparr>status := Frozen, frozen_by := Some userId, frozen_at := Some now\<rparr>"

definition bulk_freeze :: "faults \<Rightarrow> user \<Rightarrow> nat \<Rightarrow> nat list \<Rightarrow> store \<Rightarrow> response \<times> store" where
  "bulk_freeze fl u now version_ids s =
     (if u_role u \<noteq> Admin \<and> u_role u \<noteq> Approver then (Inl Forbidden, s)
      else if length version_ids = 0 then (Inl MissingFields, s)
      else if fl 0 then (Inl DbError, s)
      else
        let hit = (\<lambda>v. vid v \<in> set version_ids \<and> status v = Working)
        in (Inr (BulkFrozen (changes hit (part_versions s))),
            s\<lparr>part_versions := update_where hit (bulk_set (u_id u) now) (part_versions s)\<rparr>))"

section \<open>The server as a state machine\<close>

datatype request =
    CreatePart part_req
  | CreatePartVersion nat version_req
  | FreezePartVersion nat nat
  | RollbackPart nat "nat option"
  | DeletePart nat
  | CreateAssembly assembly_req
  | CreateAssemblyVersion nat asm_version_req
  | FreezeAssemblyVersion nat nat
  | DeleteAssembly nat
  | CreateEditRequest nat "string option"
  | ApproveEditRequest nat
  | RejectEditRequest nat
  | CreateReleaseRequest release_req
  | ApproveReleaseRequest nat
  | RejectReleaseRequest nat
  | BulkDelete "nat list"
  | BulkFreeze "nat list"

fun handle :: "faults \<Rightarrow> user \<Rightarrow> nat \<Rightarrow> request \<Rightarrow> store \<Rightarrow> store" where
  "handle fl u now (CreatePart rq) s = snd (create_part fl u now rq s)"
| "handle fl u now (CreatePartVersion p rq) s = snd (create_part_version fl u now p rq s)"
| "handle fl u now (FreezePartVersion p v) s = snd (freeze_part_version fl u now p v s)"
| "handle fl u now (RollbackPart p v) s = snd (rollback_part fl u now p v s)"
| "handle fl u now (DeletePart p) s = snd (delete_part fl u p s)"
| "handle fl u now (CreateAssembly rq) s = snd (create_assembly fl u now rq s)"
| "handle fl u now (CreateAssemblyVersion a rq) s = snd (create_assembly_version fl u now a rq s)"
| "handle fl u now (FreezeAssemblyVersion a v) s = snd (freeze_assembly_version fl u now a v s)"
| "handle fl u now (DeleteAssembly a) s = snd (delete_assembly fl u a s)"
| "handle fl u now (CreateEditRequest p r) s = snd (create_edit_request fl u p r s)"
| "handle fl u now (ApproveEditRequest r) s = snd (approve_edit_request fl u now r s)"
| "handle fl u now (RejectEditRequest r) s = snd (reject_edit_request fl u now r s)"
| "handle fl u now (CreateReleaseRequest rq) s = snd (create_release_request fl u rq s)"
| "handle fl u now (ApproveReleaseRequest r) s = snd (approve_release_request fl u now r s)"
| "handle fl u now (RejectReleaseRequest r) s = snd (reject_release_request fl u now r s)"
| "handle fl u now (BulkDelete ids) s = snd (bulk_delete fl u ids s)"
| "handle fl u now (BulkFreeze ids) s = snd (bulk_freeze fl u now ids s)"

fun is_release_approval :: "request \<Rightarrow> bool" where
  "is_release_approval (ApproveReleaseRequest r) = True"
| "is_release_approval _ = False"

text \<open>
  A call: which statements fail, who calls, the time, the request. \<open>run\<close> serves a list
  of calls one after the other, starting from a store.
\<close>

type_synonym call = "faults \<times> user \<times> nat \<times> request"

fun run :: "call list \<Rightarrow> store \<Rightarrow> store" where
  "run [] s = s"
| "run ((fl, u, now, rq) # cs) s = run cs (handle fl u now rq s)"

section \<open>Sample data\<close>

text \<open>The three users \<open>initializeDefaultUsers\<close> creates, and a part to work with.\<close>

definition admin_user :: user where
  "admin_user = \<lparr>u_id = ''ADMIN-001'', u_role = Admin\<rparr>"

definition designer_user :: user where
  "designer_user = \<lparr>u_id = ''DESIGNER-01'', u_role = Designer\<rparr>"

definition approver_user :: user where
  "approver_user = \<lparr>u_id = ''APPROVER-01'', u_role = Approver\<rparr>"

definition bracket :: part_req where
  "bracket = \<lparr>rq_part_code = ''PN-100'', rq_name = ''Bracket'', rq_description = None,
     rq_criticality = None, rq_working_path = Some ''bracket.step''\<rparr>"

definition plate :: part_req where
  "plate = \<lparr>rq_part_code = ''PN-200'', rq_name = ''Plate'', rq_description = None,
     rq_criticality = None, rq_working_path = None\<rparr>"

text \<open>The bracket is created at time 1 and its V1 frozen by the approver at time 2.\<close>

definition frozen_bracket :: store where
  "frozen_bracket = run [(no_faults, designer_user, 1, CreatePart bracket),
                         (no_faults, approver_user, 2, FreezePartVersion 1 1)] empty_store"

text \<open>The bracket is created at time 1 and a release of its V1 is requested.\<close>

definition release_requested :: store where
  "release_requested = run [(no_faults, designer_user, 1, CreatePart bracket),
       (no_faults, designer_user, 2,
        CreateReleaseRequest \<lparr>rl_item_type = ''part'', rl_item_version_id = Some 1, rl_reason = None\<rparr>)]
     empty_store"

text \<open>Next to the frozen bracket, a plate created at time 4, its V1 still working.\<close>

definition two_parts :: store where
  "two_parts = run [(no_faults, designer_user, 4, CreatePart plate)] frozen_bracket"

text \<open>Then, at time 5, the designer creates assembly ASM-1 from the bracket's V1.\<close>

definition with_assembly :: store where
  "with_assembly = run [(no_faults, designer_user, 5,
       CreateAssembly \<lparr>ar_assembly_code = ''ASM-1'', ar_name = ''Frame'', ar_part_version_ids = [1],
          ar_working_path = None, ar_description = None\<rparr>)] two_parts"

text \<open>Then, at time 6, the approver freezes V1 of the assembly.\<close>

definition frozen_assembly :: store where
  "frozen_assembly = run [(no_faults, approver_user, 6, FreezeAssemblyVersion 1 1)] with_assembly"

text \<open>
  The bracket created, its V1 frozen and a V2 created, all within second 1: V1 and V2
  carry the same \<open>created_at\<close>.
\<close>

definition same_second :: store where
  "same_second = run [(no_faults, designer_user, 1, CreatePart bracket),
       (no_faults, approver_user, 1, FreezePartVersion 1 1),
       (no_faults, designer_user, 1,
        CreatePartVersion 1 \<lparr>vr_version_label = None, vr_working_path = None, vr_change_notes = None\<rparr>)]
     empty_store"

text \<open>
  A third part, with a working path, and a run that freezes three versions in three
  ways: V1 of the bracket by direct freeze, V1 of the plate by the approval of release
  request 1 (after an approval of request 99, which does not exist), V1 of the cover by
  bulk freeze, which also lists the two versions already frozen.
\<close>

definition cover :: part_req where
  "cover = \<lparr>rq_part_code = ''PN-300'', rq_name = ''Cover'', rq_description = None,
     rq_criticality = None, rq_working_path = Some ''cover.step''\<rparr>"

definition mixed_calls :: "call list" where
  "mixed_calls =
     [(no_faults, designer_user, 1, CreatePart bracket),
      (no_faults, approver_user, 2, FreezePartVersion 1 1),
      (no_faults, designer_user, 4, CreatePart plate),
      (no_faults, designer_user, 5, CreateReleaseRequest
         \<lparr>rl_item_type = ''part'', rl_item_version_id = Some 2, rl_reason = None\<rparr>),
      (no_faults, approver_user, 6, ApproveReleaseRequest 99),
      (no_faults, approver_user, 7, ApproveReleaseRequest 1),
      (no_faults, designer_user, 8, CreatePart cover),
      (no_faults, admin_user, 9, BulkFreeze [1, 2, 3])]"


section \<open>Vocabulary of the properties\<close>

fun is_bulk_freeze :: "request \<Rightarrow> bool" where
  "is_bulk_freeze (BulkFreeze ids) = True"
| "is_bulk_freeze _ = False"

text \<open>\<open>id INTEGER PRIMARY KEY\<close> on \<open>part_versions\<close>: no two rows share an id.\<close>

definition part_version_keys :: "store \<Rightarrow> bool" where
  "part_version_keys s = distinct (map vid (part_versions s))"

definition resolves :: "nat \<Rightarrow> store \<Rightarrow> bool" where
  "resolves i s = list_ex (\<lambda>v. vid v = i) (part_versions s)"

definition resolves_frozen :: "nat \<Rightarrow> store \<Rightarrow> bool" where
  "resolves_frozen i s = list_ex (\<lambda>v. vid v = i \<and> status v = Frozen) (part_versions s)"

definition resolves_unfrozen :: "nat \<Rightarrow> store \<Rightarrow> bool" where
  "resolves_unfrozen i s = list_ex (\<lambda>v. vid v = i \<and> status v \<noteq> Frozen) (part_versions s)"

text \<open>Some composition edge points at a version of the part.\<close>

definition part_referenced :: "nat \<Rightarrow> store \<Rightarrow> bool" where
  "part_referenced partId s =
     list_ex (\<lambda>e. list_ex (\<lambda>v. part_version_id e = vid v \<and> item_id v = partId) (part_versions s))
       (assembly_parts s)"

definition failed :: "response \<Rightarrow> bool" where
  "failed r = (case r of Inl e \<Rightarrow> True | Inr x \<Rightarrow> False)"

text \<open>
  The handler gets its answer from the lookup of the listed part versions: the guards
  before it pass and the lookup statement does not fail. For a new assembly version the
  list is not empty and the latest version of the assembly does not block; for a new
  assembly the caller is a designer or admin and the fields are present and within
  bounds.
\<close>

definition version_lookup_reached :: "faults \<Rightarrow> nat \<Rightarrow> asm_version_req \<Rightarrow> store \<Rightarrow> bool" where
  "version_lookup_reached fl assemblyId rq s =
     (avr_part_version_ids rq \<noteq> [] \<and> \<not> fl 0
      \<and> \<not> blocks_new_version (getLatestAssemblyVersion assemblyId s) \<and> \<not> fl 1)"

definition assembly_lookup_reached :: "faults \<Rightarrow> user \<Rightarrow> assembly_req \<Rightarrow> bool" where
  "assembly_lookup_reached fl u rq =
     ((u_role u = Designer \<or> u_role u = Admin)
      \<and> ar_assembly_code rq \<noteq> [] \<and> ar_name rq \<noteq> [] \<and> ar_part_version_ids rq \<noteq> []
      \<and> length (ar_assembly_code rq) \<le> 50 \<and> length (ar_name rq) \<le> 200
      \<and> \<not> (truthy (ar_description rq) \<and> length (the (ar_description rq)) > 2000)
      \<and> \<not> fl 0)"

text \<open>The rows of \<open>assembly_parts\<close> that a call appended.\<close>

definition edges_added :: "store \<Rightarrow> store \<Rightarrow> edge list" where
  "edges_added s s' = drop (length (assembly_parts s)) (assembly_parts s')"

text \<open>
  The ids of the rows of a table that are frozen after a call and were working before
  it, and the ids that the calls of one kind turned frozen in a table along a run.
\<close>

definition turned_frozen :: "version_row list \<Rightarrow> version_row list \<Rightarrow> nat list" where
  "turned_frozen rows rows' =
     map vid (filter (\<lambda>w. status w = Frozen \<and> list_ex (\<lambda>v. vid v = vid w \<and> status v = Working) rows)
                rows')"

fun frozen_in_calls :: "(request \<Rightarrow> bool) \<Rightarrow> (store \<Rightarrow> version_row list) \<Rightarrow> call list \<Rightarrow> store \<Rightarrow> nat list" where
  "frozen_in_calls kind tbl [] s = []"
| "frozen_in_calls kind tbl ((fl, u, now, rq) # cs) s =
     (if kind rq then turned_frozen (tbl s) (tbl (handle fl u now rq s)) else [])
       @ frozen_in_calls kind tbl cs (handle fl u now rq s)"

text \<open>
  What a frozen version should carry, the versions with an id in \<open>T\<close> set aside: who
  froze it and when; a storage path if it has a working path. And for every version: no
  storage path without a working path to take it from.
\<close>

definition has_provenance :: "nat set \<Rightarrow> version_row \<Rightarrow> bool" where
  "has_provenance T v =
     (status v = Frozen \<and> vid v \<notin> T \<longrightarrow> frozen_by v \<noteq> None \<and> frozen_at v \<noteq> None)"

definition has_path :: "nat set \<Rightarrow> version_row \<Rightarrow> bool" where
  "has_path T v =
     (status v = Frozen \<and> vid v \<notin> T \<and> working_path v \<noteq> None \<longrightarrow> storage_path v \<noteq> None)"

definition path_from_working :: "version_row \<Rightarrow> bool" where
  "path_from_working v = (working_path v = None \<longrightarrow> storage_path v = None)"

text \<open>Reading decimal digits back.\<close>

definition digit_value :: "char \<Rightarrow> nat" where
  "digit_value c = of_char c - 48"

definition read_nat :: "string \<Rightarrow> nat" where
  "read_nat cs = foldl (\<lambda>a c. 10 * a + digit_value c) 0 cs"


text \<open>Ids are handed out upwards: no part version has an id beyond the sequence.\<close>

definition part_versions_numbered :: "store \<Rightarrow> bool" where
  "part_versions_numbered s =
     (part_version_keys s \<and> (\<forall>v \<in> set (part_versions s). vid v \<le> seq_part_versions s))"

section \<open>Evaluation and table lemmas\<close>

lemmas user_defs = no_faults_def admin_user_def designer_user_def approver_user_def

lemmas eval_defs = create_part_def freeze_part_version_def insert_part_version_def new_version_def
  grant_or_ignore_def same_grant_def update_where_def changes_def freeze_set_def coalesce_def
  or_null_def truthy_def truthy_num_def validateEnum_def VALID_CRITICALITY_def
  isApproverOrAdmin_def Let_def create_release_request_def approve_release_request_def
  decide_release_def release_set_def

lemmas assembly_defs = create_assembly_version_def create_assembly_def blocks_new_version_def
  getLatestAssemblyVersion_def latest_row_def newer_def resolve_part_versions_def next_label_def
  count_assembly_versions_def insert_assembly_version_def insert_edges_def digit_char_def

text \<open>The sample stores, computed.\<close>

lemma frozen_bracket_value:
  "frozen_bracket =
    \<lparr>parts = [\<lparr>pid = 1, part_code = ''PN-100'', p_owner_id = ''DESIGNER-01''\<rparr>],
     part_versions =
       [\<lparr>vid = 1, item_id = 1, version_label = ''V1'', status = Frozen,
         storage_path = Some ''bracket.step'', working_path = Some ''bracket.step'', change_notes = None,
         frozen_by = Some ''APPROVER-01'', frozen_at = Some 2, created_at = 1\<rparr>],
     assemblies = [], assembly_versions = [], assembly_parts = [],
     part_permissions = [\<lparr>perm_part_id = 1, perm_user_id = ''DESIGNER-01'', can_edit = True\<rparr>],
     edit_requests = [], release_requests = [], seq_parts = 1, seq_part_versions = 1,
     seq_assemblies = 0, seq_assembly_versions = 0, seq_edit_requests = 0, seq_release_requests = 0\<rparr>"
  by (simp add: frozen_bracket_def user_defs bracket_def empty_store_def eval_defs)

lemma two_parts_value:
  "two_parts =
    \<lparr>parts = [\<lparr>pid = 1, part_code = ''PN-100'', p_owner_id = ''DESIGNER-01''\<rparr>,
              \<lparr>pid = 2, part_code = ''PN-200'', p_owner_id = ''DESIGNER-01''\<rparr>],
     part_versions =
       [\<lparr>vid = 1, item_id = 1, version_label = ''V1'', status = Frozen,
         storage_path = Some ''bracket.step'', working_path = Some ''bracket.step'', change_notes = None,
         frozen_by = Some ''APPROVER-01'', frozen_at = Some 2, created_at = 1\<rparr>,
        \<lparr>vid = 2, item_id = 2, version_label = ''V1'', status = Working,
         storage_path = None, working_path = None, change_notes = None,
         frozen_by = None, frozen_at = None, created_at = 4\<rparr>],
     assemblies = [], assembly_versions = [], assembly_parts = [],
     part_permissions = [\<lparr>perm_part_id = 1, perm_user_id = ''DESIGNER-01'', can_edit = True\<rparr>,
                         \<lparr>perm_part_id = 2, perm_user_id = ''DESIGNER-01'', can_edit = True\<rparr>],
     edit_requests = [], release_requests = [], seq_parts = 2, seq_part_versions = 2,
     seq_assemblies = 0, seq_assembly_versions = 0, seq_edit_requests = 0, seq_release_requests = 0\<rparr>"
  by (simp add: two_parts_def frozen_bracket_value user_defs plate_def eval_defs)

lemma with_assembly_value:
  "with_assembly =
    \<lparr>parts = [\<lparr>pid = 1, part_code = ''PN-100'', p_owner_id = ''DESIGNER-01''\<rparr>,
              \<lparr>pid = 2, part_code = ''PN-200'', p_owner_id = ''DESIGNER-01''\<rparr>],
     part_versions =
       [\<lparr>vid = 1, item_id = 1, version_label = ''V1'', status = Frozen,
         storage_path = Some ''bracket.step'', working_path = Some ''bracket.step'', change_notes = None,
         frozen_by = Some ''APPROVER-01'', frozen_at = Some 2, created_at = 1\<rparr>,
        \<lparr>vid = 2, item_id = 2, version_label = ''V1'', status = Working,
         storage_path = None, working_path = None, change_notes = None,
         frozen_by = None, frozen_at = None, created_at = 4\<rparr>],
     assemblies = [\<lparr>aid = 1, assembly_code = ''ASM-1'', a_owner_id = ''DESIGNER-01''\<rparr>],
     assembly_versions =
       [\<lparr>vid = 1, item_id = 1, version_label = ''V1'', status = Working,
         storage_path = None, working_path = None, change_notes = None,
         frozen_by = None, frozen_at = None, created_at = 5\<rparr>],
     assembly_parts = [\<lparr>assembly_version_id = 1, part_version_id = 1\<rparr>],
     part_permissions = [\<lparr>perm_part_id = 1, perm_user_id = ''DESIGNER-01'', can_edit = True\<rparr>,
                         \<lparr>perm_part_id = 2, perm_user_id = ''DESIGNER-01'', can_edit = True\<rparr>],
     edit_requests = [], release_requests = [], seq_parts = 2, seq_part_versions = 2,
     seq_assemblies = 1, seq_assembly_versions = 1, seq_edit_requests = 0, seq_release_requests = 0\<rparr>"
  by (simp add: with_assembly_def two_parts_value user_defs eval_defs assembly_defs)

lemma reference_count_pos:
  "part_reference_count partId s > 0 \<longleftrightarrow> part_referenced partId s"
  by (auto simp: part_reference_count_def part_referenced_def list_ex_iff)

lemma failed_simps [simp]: "failed (Inl e)" "\<not> failed (Inr x)"
  by (simp_all add: failed_def)

lemma length_update_where [simp]: "length (update_where P f rows) = length rows"
  by (simp add: update_where_def)

lemma nth_update_where:
  "i < length rows \<Longrightarrow> update_where P f rows ! i = (if P (rows ! i) then f (rows ! i) else rows ! i)"
  by (simp add: update_where_def)

lemma update_where_no_hit: "changes P rows = 0 \<Longrightarrow> update_where P f rows = rows"
  by (induction rows) (auto simp: changes_def update_where_def split: if_splits)

lemma bulk_changed_count:
  "length (filter (\<lambda>(v, w). status v = Working \<and> status w = Frozen)
      (zip rows (update_where (\<lambda>v. vid v \<in> A \<and> status v = Working) (bulk_set uid now) rows)))
   = changes (\<lambda>v. vid v \<in> A \<and> status v = Working) rows"
  by (induction rows) (auto simp: changes_def update_where_def bulk_set_def)

section \<open>Bulk freeze\<close>

text \<open>
  Claim C10. Bulk freeze changes nothing but rows of \<open>part_versions\<close>, and of those only
  rows that are listed and working: a row that is already frozen stays as it is, field
  for field, whether listed or not; a row that changes was working and listed, and gets
  status frozen, \<open>frozen_by\<close> the caller and \<open>frozen_at\<close> the time, nothing else. The reply
  carries the number of rows that went from working to frozen, and when the caller is an
  admin or approver, the list is not empty and the statement does not fail, every listed
  row is frozen afterwards.
\<close>

theorem bulk_freeze_guards_on_working:
  assumes "bulk_freeze fl u now ids s = (r, s')"
  shows "length (part_versions s') = length (part_versions s)
    \<and> s' = s\<lparr>part_versions := part_versions s'\<rparr>
    \<and> (\<forall>i < length (part_versions s).
          (status (part_versions s ! i) = Frozen \<longrightarrow> part_versions s' ! i = part_versions s ! i)
        \<and> (part_versions s' ! i \<noteq> part_versions s ! i \<longrightarrow>
             status (part_versions s ! i) = Working \<and> vid (part_versions s ! i) \<in> set ids
             \<and> part_versions s' ! i
                 = (part_versions s ! i)\<lparr>status := Frozen, frozen_by := Some (u_id u), frozen_at := Some now\<rparr>))
    \<and> (\<forall>x. r = Inr x \<longrightarrow>
          x = BulkFrozen (length (filter (\<lambda>(v, w). status v = Working \<and> status w = Frozen)
                                 (zip (part_versions s) (part_versions s')))))
    \<and> ((u_role u = Admin \<or> u_role u = Approver) \<and> ids \<noteq> [] \<and> \<not> fl 0 \<longrightarrow>
          \<not> failed r
          \<and> (\<forall>i < length (part_versions s).
                vid (part_versions s ! i) \<in> set ids \<longrightarrow> status (part_versions s' ! i) = Frozen))"
proof (cases "(u_role u = Admin \<or> u_role u = Approver) \<and> ids \<noteq> [] \<and> \<not> fl 0")
  case False
  with assms have "s' = s" and "failed r"
    by (auto simp: bulk_freeze_def failed_def split: if_splits)
  then show ?thesis using False by (auto simp: failed_def)
next
  case True
  let ?hit = "\<lambda>v. vid v \<in> set ids \<and> status v = Working"
  from True assms have r: "r = Inr (BulkFrozen (changes ?hit (part_versions s)))"
    and s': "s' = s\<lparr>part_versions := update_where ?hit (bulk_set (u_id u) now) (part_versions s)\<rparr>"
    by (auto simp: bulk_freeze_def Let_def)
  have pv: "part_versions s' = update_where ?hit (bulk_set (u_id u) now) (part_versions s)"
    by (simp add: s')
  have rows: "\<forall>i < length (part_versions s).
      part_versions s' ! i = (if ?hit (part_versions s ! i)
         then bulk_set (u_id u) now (part_versions s ! i) else part_versions s ! i)"
    by (simp add: pv nth_update_where)
  have cnt: "length (filter (\<lambda>(v, w). status v = Working \<and> status w = Frozen)
               (zip (part_versions s) (part_versions s'))) = changes ?hit (part_versions s)"
    unfolding pv by (rule bulk_changed_count)
  have a: "length (part_versions s') = length (part_versions s)" by (simp add: pv)
  have b: "s' = s\<lparr>part_versions := part_versions s'\<rparr>" by (simp add: s')
  have c: "\<forall>i < length (part_versions s).
          (status (part_versions s ! i) = Frozen \<longrightarrow> part_versions s' ! i = part_versions s ! i)
        \<and> (part_versions s' ! i \<noteq> part_versions s ! i \<longrightarrow>
             status (part_versions s ! i) = Working \<and> vid (part_versions s ! i) \<in> set ids
             \<and> part_versions s' ! i
                 = (part_versions s ! i)\<lparr>status := Frozen, frozen_by := Some (u_id u), frozen_at := Some now\<rparr>)"
    using rows by (auto simp: bulk_set_def)
  have d: "\<forall>x. r = Inr x \<longrightarrow>
          x = BulkFrozen (length (filter (\<lambda>(v, w). status v = Working \<and> status w = Frozen)
                                 (zip (part_versions s) (part_versions s'))))"
    using r cnt by simp
  have e: "\<not> failed r" using r by (simp add: failed_def)
  have f: "\<forall>i < length (part_versions s).
                vid (part_versions s ! i) \<in> set ids \<longrightarrow> status (part_versions s' ! i) = Frozen"
  proof (intro allI impI)
    fix i assume i: "i < length (part_versions s)" and m: "vid (part_versions s ! i) \<in> set ids"
    show "status (part_versions s' ! i) = Frozen"
      using rows i m by (cases "status (part_versions s ! i)") (auto simp: bulk_set_def)
  qed
  show ?thesis using a b c d e f by blast
qed

text \<open>
  The admin bulk-freezes versions 1 and 2 at time 5: version 1, frozen by the approver,
  is left alone; version 2 was working and is frozen; the reply counts one.
\<close>

theorem bulk_freeze_guards_on_working_witness:
  "bulk_freeze no_faults admin_user 5 [1, 2] two_parts
     = (Inr (BulkFrozen 1),
        two_parts\<lparr>part_versions :=
          [part_versions two_parts ! 0,
           (part_versions two_parts ! 1)\<lparr>status := Frozen, frozen_by := Some ''ADMIN-001'', frozen_at := Some 5\<rparr>]\<rparr>)
   \<and> status (part_versions two_parts ! 0) = Frozen
   \<and> frozen_by (part_versions two_parts ! 0) = Some ''APPROVER-01''
   \<and> status (part_versions two_parts ! 1) = Working"
  using bulk_freeze_guards_on_working [of no_faults admin_user 5 "[1, 2]" two_parts
      "fst (bulk_freeze no_faults admin_user 5 [1, 2] two_parts)"
      "snd (bulk_freeze no_faults admin_user 5 [1, 2] two_parts)"]
  by (simp add: two_parts_value user_defs update_where_def changes_def bulk_freeze_def bulk_set_def)

section \<open>Freezing twice\<close>

text \<open>
  Claim C7 asks that a direct freeze of a version that is already frozen either leaves
  \<open>frozen_by\<close> and \<open>frozen_at\<close> as they were or is rejected. The handler does neither.
  The bracket's V1 was frozen by the approver at time 2; the admin freezes it again at
  time 3: the call succeeds, and the row now says it was frozen by the admin at time 3.
  The assembly handler does the same to V1 of the assembly, frozen by the approver at
  time 6 and frozen again by the admin at time 7.
\<close>

theorem refreeze_overwrites_provenance:
  "freeze_part_version no_faults admin_user 3 1 1 frozen_bracket =
     (Inr Done, frozen_bracket\<lparr>part_versions :=
        [\<lparr>vid = 1, item_id = 1, version_label = ''V1'', status = Frozen, storage_path = Some ''bracket.step'',
          working_path = Some ''bracket.step'', change_notes = None,
          frozen_by = Some ''ADMIN-001'', frozen_at = Some 3, created_at = 1\<rparr>]\<rparr>)
   \<and> part_versions frozen_bracket =
        [\<lparr>vid = 1, item_id = 1, version_label = ''V1'', status = Frozen, storage_path = Some ''bracket.step'',
          working_path = Some ''bracket.step'', change_notes = None,
          frozen_by = Some ''APPROVER-01'', frozen_at = Some 2, created_at = 1\<rparr>]
   \<and> freeze_assembly_version no_faults admin_user 7 1 1 frozen_assembly =
     (Inr Done, frozen_assembly\<lparr>assembly_versions :=
        [\<lparr>vid = 1, item_id = 1, version_label = ''V1'', status = Frozen, storage_path = None,
          working_path = None, change_notes = None,
          frozen_by = Some ''ADMIN-001'', frozen_at = Some 7, created_at = 5\<rparr>]\<rparr>)
   \<and> assembly_versions frozen_assembly =
        [\<lparr>vid = 1, item_id = 1, version_label = ''V1'', status = Frozen, storage_path = None,
          working_path = None, change_notes = None,
          frozen_by = Some ''APPROVER-01'', frozen_at = Some 6, created_at = 5\<rparr>]"
  by (simp add: frozen_assembly_def frozen_bracket_value with_assembly_value user_defs
      freeze_part_version_def freeze_assembly_version_def isApproverOrAdmin_def update_where_def
      changes_def freeze_set_def coalesce_def)


section \<open>The two ways to freeze\<close>

text \<open>
  Claim C4 asks that approving a release request leaves the version as a direct freeze by
  the same actor would. It does not. With a pending release request for the bracket's
  working V1, the approver's approval at time 3 freezes the version and fills
  \<open>storage_path\<close>, but leaves \<open>frozen_by\<close> and \<open>frozen_at\<close> empty; the approver's direct
  freeze at the same time records both.
\<close>

theorem release_approval_skips_provenance:
  "approve_release_request no_faults approver_user 3 1 release_requested =
     (Inr Done, release_requested\<lparr>
        release_requests := [\<lparr>rr_id = 1, rr_item_type = PartItem, rr_item_version_id = 1,
          rr_requester_id = ''DESIGNER-01'', rr_status = Approved, rr_reason = None,
          rr_decided_by = Some ''APPROVER-01'', rr_decided_at = Some 3\<rparr>],
        part_versions := [\<lparr>vid = 1, item_id = 1, version_label = ''V1'', status = Frozen,
          storage_path = Some ''bracket.step'', working_path = Some ''bracket.step'', change_notes = None,
          frozen_by = None, frozen_at = None, created_at = 1\<rparr>]\<rparr>)
   \<and> freeze_part_version no_faults approver_user 3 1 1 release_requested =
     (Inr Done, release_requested\<lparr>
        part_versions := [\<lparr>vid = 1, item_id = 1, version_label = ''V1'', status = Frozen,
          storage_path = Some ''bracket.step'', working_path = Some ''bracket.step'', change_notes = None,
          frozen_by = Some ''APPROVER-01'', frozen_at = Some 3, created_at = 1\<rparr>]\<rparr>)"
  by (simp add: release_requested_def user_defs bracket_def empty_store_def eval_defs)

section \<open>Comparing a version with itself\<close>

text \<open>
  Claim C9 asks that the comparison return the two records whenever both ids exist and
  belong to the part, also when they are the same id. Version 1 exists and belongs to
  part 1, yet comparing it with itself answers not found: the query returns one row and
  the handler asks for two.
\<close>

theorem compare_same_version_not_found:
  "compare_versions no_faults 1 (Some 1) (Some 1) frozen_bracket = Inl NotFound
   \<and> map (\<lambda>v. (vid v, item_id v)) (part_versions frozen_bracket) = [(1, 1)]"
  by (simp add: frozen_bracket_value no_faults_def compare_versions_def)

text \<open>
  With two different ids the handler does what is asked of it: it returns both records
  when both versions exist and belong to the part, and answers not found otherwise.
\<close>

lemma keyed_rows:
  assumes "part_version_keys s"
  shows "inj_on vid (set (part_versions s))" and "distinct (part_versions s)"
  using assms by (simp_all add: part_version_keys_def distinct_map)

lemma compare_rows_card:
  assumes "part_version_keys s"
  shows "length (filter Q (part_versions s)) = card {v \<in> set (part_versions s). Q v}"
proof -
  have "distinct (filter Q (part_versions s))" using keyed_rows(2) [OF assms] by simp
  then have "card (set (filter Q (part_versions s))) = length (filter Q (part_versions s))"
    by (rule distinct_card)
  then show ?thesis by simp
qed

lemma find_keyed:
  assumes "inj_on vid (set rows)" and "v \<in> set rows"
  shows "find (\<lambda>r. vid r = vid v) rows = Some v"
proof (cases "find (\<lambda>r. vid r = vid v) rows")
  case None
  with assms(2) show ?thesis by (auto simp: find_None_iff)
next
  case (Some w)
  then have "w \<in> set rows" "vid w = vid v" by (auto simp: find_Some_iff)
  with assms have "w = v" by (auto dest: inj_onD)
  with Some show ?thesis by simp
qed

lemma compare_distinct_versions:
  assumes keys: "part_version_keys s" and ne: "a \<noteq> b" and ok: "\<not> fl 0"
    and va: "va \<in> set (part_versions s)" "vid va = a" "item_id va = p"
    and vb: "vb \<in> set (part_versions s)" "vid vb = b" "item_id vb = p"
  shows "compare_versions fl p (Some a) (Some b) s = Inr (Comparison (Some va) (Some vb))"
proof -
  let ?Q = "\<lambda>pv. (vid pv = a \<or> vid pv = b) \<and> item_id pv = p"
  let ?rows = "filter ?Q (part_versions s)"
  have inj: "inj_on vid (set (part_versions s))" by (rule keyed_rows(1) [OF keys])
  have "{v \<in> set (part_versions s). ?Q v} = {va, vb}"
    using va vb inj by (auto dest: inj_onD)
  moreover have "va \<noteq> vb" using va vb ne by auto
  ultimately have len: "length ?rows = 2"
    using compare_rows_card [OF keys, of ?Q] by simp
  have inj': "inj_on vid (set ?rows)" using inj by (auto intro: inj_on_subset)
  have "va \<in> set ?rows" "vb \<in> set ?rows" using va vb by auto
  then have "find (\<lambda>r. vid r = a) ?rows = Some va" "find (\<lambda>r. vid r = b) ?rows = Some vb"
    using find_keyed [OF inj'] va(2) vb(2) by blast+
  with len ok show ?thesis by (simp add: compare_versions_def)
qed

lemma compare_missing_version:
  assumes keys: "part_version_keys s" and ok: "\<not> fl 0"
    and miss: "\<not> (\<exists>v \<in> set (part_versions s). vid v = a \<and> item_id v = p)
             \<or> \<not> (\<exists>v \<in> set (part_versions s). vid v = b \<and> item_id v = p)"
  shows "compare_versions fl p (Some a) (Some b) s = Inl NotFound"
proof -
  let ?Q = "\<lambda>pv. (vid pv = a \<or> vid pv = b) \<and> item_id pv = p"
  have inj: "inj_on vid (set (part_versions s))" by (rule keyed_rows(1) [OF keys])
  from miss obtain c where c: "\<forall>v \<in> {v \<in> set (part_versions s). ?Q v}. vid v = c"
    by (cases "\<exists>v \<in> set (part_versions s). vid v = a \<and> item_id v = p") auto
  have "\<forall>v \<in> {v \<in> set (part_versions s). ?Q v}. \<forall>w \<in> {v \<in> set (part_versions s). ?Q v}. v = w"
    using c inj by (auto dest: inj_onD)
  then have "card {v \<in> set (part_versions s). ?Q v} \<le> 1"
    by (intro card_le_Suc0_iff_eq [THEN iffD2, unfolded One_nat_def [symmetric]]) auto
  then have "length (filter ?Q (part_versions s)) \<noteq> 2"
    using compare_rows_card [OF keys, of ?Q] by simp
  with ok show ?thesis by (simp add: compare_versions_def)
qed


section \<open>A failing edge insert\<close>

text \<open>
  Claim C5 asks that nothing be persisted when a step after validation fails. The
  bracket's V1 is frozen, so validation passes. When the insert into \<open>assembly_parts\<close>
  fails, creating a version of assembly 1 answers with the database error and leaves the
  new version row behind, without edges; creating an assembly leaves the assembly row
  and its V1 behind. Before the calls the three tables were empty.
\<close>

theorem failed_edge_insert_leaves_version:
  "create_assembly_version (\<lambda>k. k = 4) designer_user 3 1
      \<lparr>avr_version_label = None, avr_part_version_ids = [1], avr_working_path = None\<rparr> frozen_bracket
   = (Inl DbError,
      frozen_bracket\<lparr>assembly_versions :=
          [\<lparr>vid = 1, item_id = 1, version_label = ''V1'', status = Working, storage_path = None,
            working_path = None, change_notes = None, frozen_by = None, frozen_at = None, created_at = 3\<rparr>],
        seq_assembly_versions := 1\<rparr>)
   \<and> create_assembly (\<lambda>k. k = 3) designer_user 3
      \<lparr>ar_assembly_code = ''ASM-1'', ar_name = ''Frame'', ar_part_version_ids = [1],
        ar_working_path = None, ar_description = None\<rparr> frozen_bracket
   = (Inl DbError,
      frozen_bracket\<lparr>assemblies := [\<lparr>aid = 1, assembly_code = ''ASM-1'', a_owner_id = ''DESIGNER-01''\<rparr>],
        seq_assemblies := 1,
        assembly_versions :=
          [\<lparr>vid = 1, item_id = 1, version_label = ''V1'', status = Working, storage_path = None,
            working_path = None, change_notes = None, frozen_by = None, frozen_at = None, created_at = 3\<rparr>],
        seq_assembly_versions := 1\<rparr>)
   \<and> assemblies frozen_bracket = [] \<and> assembly_versions frozen_bracket = []
   \<and> assembly_parts frozen_bracket = []"
  by (simp add: frozen_bracket_value user_defs eval_defs assembly_defs show_nat.simps)

section \<open>Deleting a part\<close>

text \<open>
  Claim C6. For an admin, deleting a part answers with the referenced-by-assemblies
  error only if some composition edge points at a version of the part, and whenever one
  does the call fails, with that very error unless the count query itself failed. A
  failed call leaves the store as it was. A call that succeeds leaves no part row, no
  version, no grant and no edit request of that part, and keeps every other row; and
  the call does succeed when the part is not referenced and no statement fails.
\<close>

theorem delete_part_blocked_iff_referenced:
  assumes "u_role u = Admin" and "delete_part fl u partId s = (r, s')"
  shows "(r = Inl ReferencedByAssemblies \<longrightarrow> part_referenced partId s)
    \<and> (part_referenced partId s \<longrightarrow> failed r \<and> (\<not> fl 0 \<longrightarrow> r = Inl ReferencedByAssemblies))
    \<and> (failed r \<longrightarrow> s' = s)
    \<and> (\<not> part_referenced partId s \<and> \<not> fl 0 \<and> \<not> fl 1 \<longrightarrow> r = Inr Done)
    \<and> (\<not> failed r \<longrightarrow>
          parts s' = filter (\<lambda>p. pid p \<noteq> partId) (parts s)
        \<and> part_versions s' = filter (\<lambda>v. item_id v \<noteq> partId) (part_versions s)
        \<and> part_permissions s' = filter (\<lambda>g. perm_part_id g \<noteq> partId) (part_permissions s)
        \<and> edit_requests s' = filter (\<lambda>q. er_part_id q \<noteq> partId) (edit_requests s)
        \<and> assemblies s' = assemblies s \<and> assembly_versions s' = assembly_versions s
        \<and> assembly_parts s' = assembly_parts s \<and> release_requests s' = release_requests s)"
  using assms
  by (auto simp: delete_part_def reference_count_pos delete_where_def Let_def split: if_splits)

text \<open>
  In the store with assembly ASM-1, part 1 is referenced and its deletion is refused,
  the store unchanged; part 2 is not referenced and its deletion removes it.
\<close>

theorem delete_part_blocked_iff_referenced_witness:
  "u_role admin_user = Admin
   \<and> part_referenced 1 with_assembly
   \<and> delete_part no_faults admin_user 1 with_assembly = (Inl ReferencedByAssemblies, with_assembly)
   \<and> \<not> part_referenced 2 with_assembly
   \<and> fst (delete_part no_faults admin_user 2 with_assembly) = Inr Done
   \<and> map pid (parts with_assembly) = [1, 2]
   \<and> parts (snd (delete_part no_faults admin_user 2 with_assembly))
        = filter (\<lambda>p. pid p \<noteq> 2) (parts with_assembly)
   \<and> part_versions (snd (delete_part no_faults admin_user 2 with_assembly))
        = filter (\<lambda>v. item_id v \<noteq> 2) (part_versions with_assembly)"
proof -
  have ev1: "delete_part no_faults admin_user 1 with_assembly = (Inl ReferencedByAssemblies, with_assembly)"
    by (simp add: with_assembly_value user_defs delete_part_def part_reference_count_def)
  have ev2: "fst (delete_part no_faults admin_user 2 with_assembly) = Inr Done"
    by (simp add: with_assembly_value user_defs delete_part_def part_reference_count_def)
  have adm: "u_role admin_user = Admin" by (simp add: admin_user_def)
  obtain r s' where e2: "delete_part no_faults admin_user 2 with_assembly = (r, s')"
    by (cases "delete_part no_faults admin_user 2 with_assembly")
  have r: "r = Inr Done" using e2 ev2 by simp
  note blocked = delete_part_blocked_iff_referenced [OF adm ev1]
  note deleted = delete_part_blocked_iff_referenced [OF adm e2]
  have r1: "part_referenced 1 with_assembly" using blocked by simp
  have r2: "\<not> part_referenced 2 with_assembly" using deleted r by auto
  have gone: "parts s' = filter (\<lambda>p. pid p \<noteq> 2) (parts with_assembly)
      \<and> part_versions s' = filter (\<lambda>v. item_id v \<noteq> 2) (part_versions with_assembly)"
    using deleted r by simp
  have ids: "map pid (parts with_assembly) = [1, 2]" by (simp add: with_assembly_value)
  show ?thesis using adm ev1 e2 r r1 r2 gone ids by simp
qed


section \<open>Creating a part version\<close>

lemma foldl_newer_None: "foldl newer acc rows = None \<longleftrightarrow> acc = None \<and> rows = []"
  by (induction rows arbitrary: acc) (auto simp: newer_def split: option.splits)

lemma foldl_newer_Some:
  "foldl newer acc rows = Some v \<Longrightarrow>
     (acc = Some v \<or> v \<in> set rows)
     \<and> (\<forall>w \<in> set rows. created_at w \<le> created_at v)
     \<and> (\<forall>a. acc = Some a \<longrightarrow> created_at a \<le> created_at v)"
proof (induction rows arbitrary: acc)
  case Nil
  then show ?case by simp
next
  case (Cons x xs)
  from Cons.prems have "foldl newer (newer acc x) xs = Some v" by simp
  from Cons.IH [OF this] show ?case
    by (auto simp: newer_def split: option.splits if_splits)
qed

lemma latest_row_None: "latest_row rows = None \<longleftrightarrow> rows = []"
  by (simp add: latest_row_def foldl_newer_None)

lemma latest_row_Some:
  "latest_row rows = Some v \<Longrightarrow> v \<in> set rows \<and> (\<forall>w \<in> set rows. created_at w \<le> created_at v)"
  using foldl_newer_Some [of None rows v] by (simp add: latest_row_def)

lemma latest_part_version_None:
  "getLatestPartVersion partId s = None \<longleftrightarrow> count_part_versions partId s = 0"
  by (simp add: getLatestPartVersion_def count_part_versions_def latest_row_None)

lemma latest_part_version_Some:
  "getLatestPartVersion partId s = Some v \<Longrightarrow>
     v \<in> set (part_versions s) \<and> item_id v = partId
     \<and> (\<forall>w \<in> set (part_versions s). item_id w = partId \<longrightarrow> created_at w \<le> created_at v)"
  using latest_row_Some [of "filter (\<lambda>v. item_id v = partId) (part_versions s)" v]
  by (simp add: getLatestPartVersion_def)

text \<open>
  The label is the decimal numeral: reading the digits of \<open>show_nat n\<close> back gives
  \<open>n\<close>, and there is no leading zero.
\<close>

lemma digit_value_char: "d < 10 \<Longrightarrow> digit_value (digit_char d) = d"
proof -
  assume "d < 10"
  then consider "d = 0" | "d = 1" | "d = 2" | "d = 3" | "d = 4" | "d = 5" | "d = 6" | "d = 7"
    | "d = 8" | "d = 9" by atomize_elim arith
  then show ?thesis by cases (simp_all add: digit_char_def digit_value_def)
qed

lemma read_nat_snoc: "read_nat (cs @ [c]) = 10 * read_nat cs + digit_value c"
  by (simp add: read_nat_def)

lemma read_show_nat: "read_nat (show_nat n) = n"
proof (induction n rule: show_nat.induct)
  case (1 n)
  show ?case
  proof (cases "n < 10")
    case True
    then show ?thesis by (simp add: show_nat.simps [of n] read_nat_def digit_value_char)
  next
    case False
    with 1 have "read_nat (show_nat (n div 10)) = n div 10" by simp
    with False show ?thesis
      by (simp add: show_nat.simps [of n] read_nat_snoc digit_value_char)
  qed
qed

lemma show_nat_not_empty: "show_nat n \<noteq> []"
  by (simp add: show_nat.simps [of n])

lemma show_nat_no_leading_zero: "0 < n \<Longrightarrow> hd (show_nat n) \<noteq> CHR ''0''"
proof (induction n rule: show_nat.induct)
  case (1 n)
  show ?case
  proof (cases "n < 10")
    case True
    with 1(2) consider "n = 1" | "n = 2" | "n = 3" | "n = 4" | "n = 5" | "n = 6" | "n = 7"
      | "n = 8" | "n = 9" by atomize_elim arith
    then show ?thesis by cases (simp_all add: show_nat.simps digit_char_def)
  next
    case False
    then have "0 < n div 10" by simp
    with 1(1) False have "hd (show_nat (n div 10)) \<noteq> CHR ''0''" by simp
    with False show ?thesis
      by (simp add: show_nat.simps [of n] show_nat_not_empty)
  qed
qed

lemma show_nat_examples:
  "show_nat 0 = ''0''" "show_nat 9 = ''9''" "show_nat 10 = ''10''" "show_nat 42 = ''42''"
  "show_nat 100 = ''100''"
  by (simp_all add: show_nat.simps digit_char_def)


lemmas part_version_eval = create_part_version_def canEditPart_def getLatestPartVersion_def
  latest_row_def newer_def blocks_new_version_def next_label_def count_part_versions_def
  digit_char_def

text \<open>
  Claim C2 says that a version is created only if the part has no version or its most
  recently created version is frozen. The handler takes the latest version by
  \<open>created_at\<close>, which counts seconds. V1 of the bracket was created and frozen and V2
  created, all within second 1; V2, the most recently created version, is working. The
  lookup returns V1, which is frozen, and the owner's next call succeeds: it creates V3,
  working, beside the working V2.
\<close>

theorem create_part_version_beside_working_version:
  "part_versions same_second =
     [\<lparr>vid = 1, item_id = 1, version_label = ''V1'', status = Frozen, storage_path = Some ''bracket.step'',
       working_path = Some ''bracket.step'', change_notes = None,
       frozen_by = Some ''APPROVER-01'', frozen_at = Some 1, created_at = 1\<rparr>,
      \<lparr>vid = 2, item_id = 1, version_label = ''V2'', status = Working, storage_path = None,
       working_path = None, change_notes = None, frozen_by = None, frozen_at = None, created_at = 1\<rparr>]
   \<and> create_part_version no_faults designer_user 2 1
       \<lparr>vr_version_label = None, vr_working_path = None, vr_change_notes = None\<rparr> same_second
     = (Inr (VersionCreated 3 1 ''V3''),
        same_second\<lparr>part_versions := part_versions same_second
            @ [\<lparr>vid = 3, item_id = 1, version_label = ''V3'', status = Working, storage_path = None,
                 working_path = None, change_notes = None, frozen_by = None, frozen_at = None,
                 created_at = 2\<rparr>],
          seq_part_versions := 3\<rparr>)"
  by (simp add: same_second_def user_defs bracket_def empty_store_def eval_defs part_version_eval
      show_nat.simps)

text \<open>
  What the handler does with the row its lookup returns. The call succeeds only if the
  part has no version or the returned row is frozen, and the returned row is a version
  of the part with the greatest \<open>created_at\<close>. If the returned row is not frozen the
  call fails and no version row is added; the error is the previous-version-not-frozen
  one as soon as the caller may edit the part and the lookup does not fail. Any failed
  call leaves the store as it was. A successful call appends exactly one row, for this
  part, with status working, and when no label was supplied its label is V followed by
  the number of the part's versions plus one. The call succeeds whenever the caller may
  edit, the returned row does not block and no statement fails.
\<close>

lemma create_part_version_follows_lookup:
  assumes "create_part_version fl u now partId rq s = (r, s')"
  shows "(\<not> failed r \<longrightarrow>
            count_part_versions partId s = 0
          \<or> (\<exists>v. getLatestPartVersion partId s = Some v \<and> status v = Frozen))
    \<and> (\<forall>v. getLatestPartVersion partId s = Some v \<longrightarrow>
            v \<in> set (part_versions s) \<and> item_id v = partId
          \<and> (\<forall>w \<in> set (part_versions s). item_id w = partId \<longrightarrow> created_at w \<le> created_at v))
    \<and> (\<forall>v. getLatestPartVersion partId s = Some v \<and> status v \<noteq> Frozen \<longrightarrow>
            failed r \<and> part_versions s' = part_versions s
          \<and> (canEditPart fl (u_id u) (u_role u) partId s = Inr True \<and> \<not> fl 2
                \<longrightarrow> r = Inl PreviousNotFrozen))
    \<and> (failed r \<longrightarrow> s' = s)
    \<and> (\<not> failed r \<longrightarrow>
          (\<exists>nv. part_versions s' = part_versions s @ [nv]
              \<and> item_id nv = partId \<and> status nv = Working
              \<and> (\<not> truthy (vr_version_label rq) \<longrightarrow>
                    version_label nv = ''V'' @ show_nat (count_part_versions partId s + 1))))
    \<and> (canEditPart fl (u_id u) (u_role u) partId s = Inr True
        \<and> \<not> blocks_new_version (getLatestPartVersion partId s)
        \<and> \<not> fl 2 \<and> \<not> fl 3 \<and> \<not> fl 4 \<longrightarrow> \<not> failed r)"
proof -
  have latest: "\<forall>v. getLatestPartVersion partId s = Some v \<longrightarrow>
            v \<in> set (part_versions s) \<and> item_id v = partId
          \<and> (\<forall>w \<in> set (part_versions s). item_id w = partId \<longrightarrow> created_at w \<le> created_at v)"
    using latest_part_version_Some by blast
  have ok: "\<not> failed r \<longrightarrow> \<not> blocks_new_version (getLatestPartVersion partId s)
      \<and> s' = insert_part_version partId
                (next_label (vr_version_label rq) (count_part_versions partId s))
                (or_null (vr_working_path rq)) (or_null (vr_change_notes rq)) now s"
    using assms
    by (auto simp: create_part_version_def Let_def split: sum.splits if_splits)
  have bad: "failed r \<longrightarrow> s' = s"
    using assms
    by (auto simp: create_part_version_def Let_def split: sum.splits if_splits)
  have blocked: "blocks_new_version (getLatestPartVersion partId s) \<longrightarrow>
      failed r \<and> (canEditPart fl (u_id u) (u_role u) partId s = Inr True \<and> \<not> fl 2
                \<longrightarrow> r = Inl PreviousNotFrozen)"
    using assms
    by (auto simp: create_part_version_def Let_def split: sum.splits if_splits)
  have live: "canEditPart fl (u_id u) (u_role u) partId s = Inr True
        \<and> \<not> blocks_new_version (getLatestPartVersion partId s)
        \<and> \<not> fl 2 \<and> \<not> fl 3 \<and> \<not> fl 4 \<longrightarrow> \<not> failed r"
    using assms
    by (auto simp: create_part_version_def Let_def split: sum.splits if_splits)
  have c1: "\<not> failed r \<longrightarrow>
            count_part_versions partId s = 0
          \<or> (\<exists>v. getLatestPartVersion partId s = Some v \<and> status v = Frozen)"
    using ok latest_part_version_None [of partId s]
    by (cases "getLatestPartVersion partId s") (auto simp: blocks_new_version_def)
  have c3: "\<forall>v. getLatestPartVersion partId s = Some v \<and> status v \<noteq> Frozen \<longrightarrow>
            failed r \<and> part_versions s' = part_versions s
          \<and> (canEditPart fl (u_id u) (u_role u) partId s = Inr True \<and> \<not> fl 2
                \<longrightarrow> r = Inl PreviousNotFrozen)"
    using blocked bad by (auto simp: blocks_new_version_def)
  have c5: "\<not> failed r \<longrightarrow>
          (\<exists>nv. part_versions s' = part_versions s @ [nv]
              \<and> item_id nv = partId \<and> status nv = Working
              \<and> (\<not> truthy (vr_version_label rq) \<longrightarrow>
                    version_label nv = ''V'' @ show_nat (count_part_versions partId s + 1)))"
    using ok by (auto simp: insert_part_version_def new_version_def next_label_def)
  show ?thesis using c1 latest c3 bad c5 live by blast
qed


text \<open>
  In the store with two parts the designer owns both. Part 1 has one version, frozen:
  a new version is created, labelled V2, working. Part 2 has a working version: the
  call is refused and the store unchanged.
\<close>

lemma create_part_version_follows_lookup_example:
  "create_part_version no_faults designer_user 6 1
       \<lparr>vr_version_label = None, vr_working_path = None, vr_change_notes = None\<rparr> two_parts
     = (Inr (VersionCreated 3 1 ''V2''),
        two_parts\<lparr>part_versions := part_versions two_parts
            @ [\<lparr>vid = 3, item_id = 1, version_label = ''V2'', status = Working, storage_path = None,
                 working_path = None, change_notes = None, frozen_by = None, frozen_at = None,
                 created_at = 6\<rparr>],
          seq_part_versions := 3\<rparr>)
   \<and> (\<exists>v. getLatestPartVersion 1 two_parts = Some v \<and> status v = Frozen)
   \<and> count_part_versions 1 two_parts = 1
   \<and> create_part_version no_faults designer_user 6 2
       \<lparr>vr_version_label = None, vr_working_path = None, vr_change_notes = None\<rparr> two_parts
     = (Inl PreviousNotFrozen, two_parts)
   \<and> (\<exists>v. getLatestPartVersion 2 two_parts = Some v \<and> status v \<noteq> Frozen)"
proof -
  let ?rq = "\<lparr>vr_version_label = None, vr_working_path = None, vr_change_notes = None\<rparr>"
  have cnt: "count_part_versions 1 two_parts = 1"
    by (simp add: two_parts_value count_part_versions_def)
  have ev1: "create_part_version no_faults designer_user 6 1 ?rq two_parts
     = (Inr (VersionCreated 3 1 ''V2''),
        two_parts\<lparr>part_versions := part_versions two_parts
            @ [\<lparr>vid = 3, item_id = 1, version_label = ''V2'', status = Working, storage_path = None,
                 working_path = None, change_notes = None, frozen_by = None, frozen_at = None,
                 created_at = 6\<rparr>],
          seq_part_versions := 3\<rparr>)"
    by (simp add: two_parts_value user_defs create_part_version_def canEditPart_def
        getLatestPartVersion_def latest_row_def newer_def blocks_new_version_def next_label_def
        count_part_versions_def insert_part_version_def new_version_def or_null_def truthy_def
        show_nat.simps digit_char_def Let_def)
  have ev2: "create_part_version no_faults designer_user 6 2 ?rq two_parts = (Inl PreviousNotFrozen, two_parts)"
    by (simp add: two_parts_value user_defs create_part_version_def canEditPart_def
        getLatestPartVersion_def latest_row_def newer_def blocks_new_version_def)
  have l2: "\<exists>v. getLatestPartVersion 2 two_parts = Some v \<and> status v \<noteq> Frozen"
    by (simp add: two_parts_value getLatestPartVersion_def latest_row_def newer_def)
  note made = create_part_version_follows_lookup [OF ev1]
  note refused = create_part_version_follows_lookup [OF ev2]
  have l1: "\<exists>v. getLatestPartVersion 1 two_parts = Some v \<and> status v = Frozen"
    using made cnt by simp
  have "failed (Inl PreviousNotFrozen)" using refused l2 by blast
  with ev1 ev2 l1 l2 cnt show ?thesis by simp
qed

section \<open>Creating requests\<close>





section \<open>Assemblies are built from frozen part versions\<close>

lemma resolves_iff: "resolves i s \<longleftrightarrow> i \<in> vid ` set (part_versions s)"
  by (auto simp: resolves_def list_ex_iff)

lemma lookup_length:
  assumes "part_version_keys s"
  shows "length (resolve_part_versions ids s) = card (set ids \<inter> vid ` set (part_versions s))"
proof -
  let ?rows = "resolve_part_versions ids s"
  have "distinct (map vid ?rows)"
    using assms by (simp add: part_version_keys_def resolve_part_versions_def distinct_map_filter)
  then have "length ?rows = card (set (map vid ?rows))"
    by (metis distinct_card length_map)
  moreover have "set (map vid ?rows) = set ids \<inter> vid ` set (part_versions s)"
    by (auto simp: resolve_part_versions_def)
  ultimately show ?thesis by simp
qed

lemma lookup_short:
  assumes "part_version_keys s" and "i \<in> set ids" and "\<not> resolves i s"
  shows "length (resolve_part_versions ids s) \<noteq> length ids"
proof -
  have "set ids \<inter> vid ` set (part_versions s) \<subset> set ids"
    using assms(2,3) by (auto simp: resolves_iff)
  then have "card (set ids \<inter> vid ` set (part_versions s)) < card (set ids)"
    by (simp add: psubset_card_mono)
  also have "\<dots> \<le> length ids" by (rule card_length)
  finally show ?thesis using lookup_length [OF assms(1), of ids] by simp
qed

lemma lookup_full:
  assumes "part_version_keys s" and "length (resolve_part_versions ids s) = length ids"
  shows "distinct ids \<and> (\<forall>i \<in> set ids. resolves i s)"
proof -
  have c: "card (set ids \<inter> vid ` set (part_versions s)) = length ids"
    using lookup_length [OF assms(1), of ids] assms(2) by simp
  have le: "card (set ids \<inter> vid ` set (part_versions s)) \<le> card (set ids)"
    by (simp add: card_mono)
  with c have eq: "card (set ids) = length ids"
    using card_length [of ids] by linarith
  then have d: "distinct ids" by (simp add: card_distinct)
  have "set ids \<inter> vid ` set (part_versions s) = set ids"
    using c eq by (intro card_subset_eq) auto
  then have "\<forall>i \<in> set ids. resolves i s" by (auto simp: resolves_iff)
  with d show ?thesis by simp
qed

lemma lookup_complete:
  assumes "part_version_keys s" and "distinct ids" and "\<forall>i \<in> set ids. resolves i s"
  shows "length (resolve_part_versions ids s) = length ids"
proof -
  have "set ids \<inter> vid ` set (part_versions s) = set ids"
    using assms(3) by (auto simp: resolves_iff)
  then show ?thesis
    using lookup_length [OF assms(1), of ids] assms(2) by (simp add: distinct_card)
qed

lemma lookup_unfrozen:
  assumes "i \<in> set ids" and "resolves_unfrozen i s"
  shows "find (\<lambda>row. status row \<noteq> Frozen) (resolve_part_versions ids s) \<noteq> None"
  using assms
  by (auto simp: resolves_unfrozen_def list_ex_iff resolve_part_versions_def find_None_iff)

lemma lookup_all_frozen:
  assumes "part_version_keys s" and "length (resolve_part_versions ids s) = length ids"
    and "find (\<lambda>row. status row \<noteq> Frozen) (resolve_part_versions ids s) = None"
    and "i \<in> set ids"
  shows "resolves_frozen i s"
proof -
  from lookup_full [OF assms(1,2)] assms(4) have "resolves i s" by simp
  then obtain v where v: "v \<in> set (part_versions s)" "vid v = i"
    by (auto simp: resolves_iff)
  with assms(4) have "v \<in> set (resolve_part_versions ids s)"
    by (simp add: resolve_part_versions_def)
  with assms(3) have "status v = Frozen" by (auto simp: find_None_iff)
  with v show ?thesis by (auto simp: resolves_frozen_def list_ex_iff)
qed

text \<open>What the two handlers do with the outcome of the lookup.\<close>

lemma version_lookup_outcome:
  assumes "create_assembly_version fl u now assemblyId rq s = (r, s')"
  defines "ids \<equiv> avr_part_version_ids rq"
  defines "rows \<equiv> resolve_part_versions (avr_part_version_ids rq) s"
  shows "(length rows \<noteq> length ids \<longrightarrow> failed r \<and> s' = s
            \<and> (version_lookup_reached fl assemblyId rq s \<longrightarrow> r = Inl PartVersionsNotFound))"
    and "(find (\<lambda>row. status row \<noteq> Frozen) rows \<noteq> None \<longrightarrow> failed r \<and> s' = s
            \<and> (version_lookup_reached fl assemblyId rq s \<and> length rows = length ids
                  \<longrightarrow> r = Inl PartVersionsNotFrozen))"
    and "(\<not> failed r \<longrightarrow> length rows = length ids
            \<and> find (\<lambda>row. status row \<noteq> Frozen) rows = None
            \<and> part_versions s' = part_versions s
            \<and> assembly_parts s' = assembly_parts s
                 @ map (\<lambda>i. \<lparr>assembly_version_id = seq_assembly_versions s + 1, part_version_id = i\<rparr>) ids)"
  using assms(1) unfolding ids_def rows_def
  by (auto simp: create_assembly_version_def version_lookup_reached_def Let_def
      insert_edges_def insert_assembly_version_def split: if_splits)

lemma assembly_lookup_outcome:
  assumes "create_assembly fl u now rq s = (r, s')"
  defines "ids \<equiv> ar_part_version_ids rq"
  defines "rows \<equiv> resolve_part_versions (ar_part_version_ids rq) s"
  shows "(length rows \<noteq> length ids \<longrightarrow> failed r \<and> s' = s
            \<and> (assembly_lookup_reached fl u rq \<longrightarrow> r = Inl PartVersionsNotFound))"
    and "(find (\<lambda>row. status row \<noteq> Frozen) rows \<noteq> None \<longrightarrow> failed r \<and> s' = s
            \<and> (assembly_lookup_reached fl u rq \<and> length rows = length ids
                  \<longrightarrow> r = Inl PartVersionsNotFrozen))"
    and "(\<not> failed r \<longrightarrow> length rows = length ids
            \<and> find (\<lambda>row. status row \<noteq> Frozen) rows = None
            \<and> part_versions s' = part_versions s
            \<and> assembly_parts s' = assembly_parts s
                 @ map (\<lambda>i. \<lparr>assembly_version_id = seq_assembly_versions s + 1, part_version_id = i\<rparr>) ids)"
  using assms(1) unfolding ids_def rows_def
  by (auto simp: create_assembly_def assembly_lookup_reached_def Let_def
      insert_edges_def insert_assembly_version_def split: if_splits)


lemma frozen_parts_rule:
  assumes keys: "part_version_keys s"
    and short: "length (resolve_part_versions ids s) \<noteq> length ids \<longrightarrow> failed r \<and> s' = s
            \<and> (G \<longrightarrow> r = Inl PartVersionsNotFound)"
    and unfrozen: "find (\<lambda>row. status row \<noteq> Frozen) (resolve_part_versions ids s) \<noteq> None \<longrightarrow>
            failed r \<and> s' = s
            \<and> (G \<and> length (resolve_part_versions ids s) = length ids \<longrightarrow> r = Inl PartVersionsNotFrozen)"
    and made: "\<not> failed r \<longrightarrow> length (resolve_part_versions ids s) = length ids
            \<and> find (\<lambda>row. status row \<noteq> Frozen) (resolve_part_versions ids s) = None
            \<and> part_versions s' = part_versions s
            \<and> assembly_parts s' = assembly_parts s
                 @ map (\<lambda>i. \<lparr>assembly_version_id = k, part_version_id = i\<rparr>) ids"
  shows "((\<exists>i \<in> set ids. \<not> resolves i s) \<longrightarrow>
            failed r \<and> s' = s \<and> (G \<longrightarrow> r = Inl PartVersionsNotFound))
    \<and> ((\<exists>i \<in> set ids. resolves_unfrozen i s) \<longrightarrow>
            failed r \<and> s' = s
            \<and> (G \<and> distinct ids \<and> (\<forall>i \<in> set ids. resolves i s) \<longrightarrow> r = Inl PartVersionsNotFrozen))
    \<and> (\<not> failed r \<longrightarrow>
            part_versions s' = part_versions s
          \<and> assembly_parts s' = assembly_parts s @ edges_added s s'
          \<and> map part_version_id (edges_added s s') = ids
          \<and> (\<forall>e \<in> set (edges_added s s'). resolves_frozen (part_version_id e) s'))"
proof (intro conjI impI)
  assume "\<exists>i \<in> set ids. \<not> resolves i s"
  then have "length (resolve_part_versions ids s) \<noteq> length ids"
    using lookup_short [OF keys] by blast
  with short show "failed r" "s' = s" "G \<Longrightarrow> r = Inl PartVersionsNotFound" by simp_all
next
  assume "\<exists>i \<in> set ids. resolves_unfrozen i s"
  then have u: "find (\<lambda>row. status row \<noteq> Frozen) (resolve_part_versions ids s) \<noteq> None"
    using lookup_unfrozen by blast
  with unfrozen show "failed r" "s' = s" by simp_all
  assume "G \<and> distinct ids \<and> (\<forall>i \<in> set ids. resolves i s)"
  then show "r = Inl PartVersionsNotFrozen"
    using unfrozen u lookup_complete [OF keys, of ids] by simp
next
  assume ok: "\<not> failed r"
  with made have len: "length (resolve_part_versions ids s) = length ids"
    and fr: "find (\<lambda>row. status row \<noteq> Frozen) (resolve_part_versions ids s) = None"
    and pv: "part_versions s' = part_versions s"
    and ap: "assembly_parts s' = assembly_parts s
                 @ map (\<lambda>i. \<lparr>assembly_version_id = k, part_version_id = i\<rparr>) ids"
    by simp_all
  have added: "edges_added s s' = map (\<lambda>i. \<lparr>assembly_version_id = k, part_version_id = i\<rparr>) ids"
    by (simp add: edges_added_def ap)
  show "part_versions s' = part_versions s" by (rule pv)
  show "assembly_parts s' = assembly_parts s @ edges_added s s'" by (simp add: added ap)
  show "map part_version_id (edges_added s s') = ids" by (simp add: added comp_def)
  show "\<forall>e \<in> set (edges_added s s'). resolves_frozen (part_version_id e) s'"
  proof
    fix e assume "e \<in> set (edges_added s s')"
    then have "part_version_id e \<in> set ids" by (auto simp: added)
    then have "resolves_frozen (part_version_id e) s"
      by (rule lookup_all_frozen [OF keys len fr])
    then show "resolves_frozen (part_version_id e) s'"
      by (simp add: resolves_frozen_def pv)
  qed
qed

text \<open>
  Claim C1, for a store whose part versions have distinct ids, and for both calls that
  create an assembly version. If a listed id resolves to no part version the call fails
  and the store is unchanged; the error is the not-found one as soon as the handler gets
  its answer from the lookup. If a listed id resolves to a part version that is not frozen the call
  fails and the store is unchanged; the error is the not-frozen one when the handler gets
  its answer from the lookup and the row count matches, that is when the listed ids are
  distinct and all resolve. A call that succeeds leaves the part versions alone and appends one
  edge per listed id, in order, and each of these edges points at a part version that is
  frozen in the store the call leaves.
\<close>

theorem assembly_built_from_frozen_parts:
  assumes "part_version_keys s"
    and "create_assembly_version fl u now assemblyId vrq s = (r, s')"
    and "create_assembly fl' u' now' arq s = (q, t')"
  shows "(((\<exists>i \<in> set (avr_part_version_ids vrq). \<not> resolves i s) \<longrightarrow>
            failed r \<and> s' = s
            \<and> (version_lookup_reached fl assemblyId vrq s \<longrightarrow> r = Inl PartVersionsNotFound))
    \<and> ((\<exists>i \<in> set (avr_part_version_ids vrq). resolves_unfrozen i s) \<longrightarrow>
            failed r \<and> s' = s
            \<and> (version_lookup_reached fl assemblyId vrq s \<and> distinct (avr_part_version_ids vrq)
                \<and> (\<forall>i \<in> set (avr_part_version_ids vrq). resolves i s)
                  \<longrightarrow> r = Inl PartVersionsNotFrozen))
    \<and> (\<not> failed r \<longrightarrow>
            part_versions s' = part_versions s
          \<and> assembly_parts s' = assembly_parts s @ edges_added s s'
          \<and> map part_version_id (edges_added s s') = avr_part_version_ids vrq
          \<and> (\<forall>e \<in> set (edges_added s s'). resolves_frozen (part_version_id e) s')))
   \<and> (((\<exists>i \<in> set (ar_part_version_ids arq). \<not> resolves i s) \<longrightarrow>
            failed q \<and> t' = s
            \<and> (assembly_lookup_reached fl' u' arq \<longrightarrow> q = Inl PartVersionsNotFound))
    \<and> ((\<exists>i \<in> set (ar_part_version_ids arq). resolves_unfrozen i s) \<longrightarrow>
            failed q \<and> t' = s
            \<and> (assembly_lookup_reached fl' u' arq \<and> distinct (ar_part_version_ids arq)
                \<and> (\<forall>i \<in> set (ar_part_version_ids arq). resolves i s)
                  \<longrightarrow> q = Inl PartVersionsNotFrozen))
    \<and> (\<not> failed q \<longrightarrow>
            part_versions t' = part_versions s
          \<and> assembly_parts t' = assembly_parts s @ edges_added s t'
          \<and> map part_version_id (edges_added s t') = ar_part_version_ids arq
          \<and> (\<forall>e \<in> set (edges_added s t'). resolves_frozen (part_version_id e) t')))"
  using frozen_parts_rule [OF assms(1) version_lookup_outcome [OF assms(2)]]
        frozen_parts_rule [OF assms(1) assembly_lookup_outcome [OF assms(3)]]
  by (rule conjI)


text \<open>
  In the store with two parts, version 1 is frozen, version 2 is working and there is
  no version 7: listing 7 is refused as not found, listing 2 as not frozen, and listing
  1 alone creates the assembly version with one edge, to the frozen version 1.
\<close>

theorem assembly_built_from_frozen_parts_witness:
  "part_version_keys two_parts
   \<and> \<not> resolves 7 two_parts
   \<and> create_assembly_version no_faults designer_user 6 1
        \<lparr>avr_version_label = None, avr_part_version_ids = [1, 7], avr_working_path = None\<rparr> two_parts
      = (Inl PartVersionsNotFound, two_parts)
   \<and> resolves_unfrozen 2 two_parts
   \<and> create_assembly no_faults designer_user 6
        \<lparr>ar_assembly_code = ''ASM-2'', ar_name = ''Cover'', ar_part_version_ids = [1, 2],
          ar_working_path = None, ar_description = None\<rparr> two_parts
      = (Inl PartVersionsNotFrozen, two_parts)
   \<and> fst (create_assembly_version no_faults designer_user 6 1
        \<lparr>avr_version_label = None, avr_part_version_ids = [1], avr_working_path = None\<rparr> two_parts)
      = Inr (VersionCreated 1 1 ''V1'')
   \<and> map part_version_id (edges_added two_parts (snd (create_assembly_version no_faults designer_user 6 1
        \<lparr>avr_version_label = None, avr_part_version_ids = [1], avr_working_path = None\<rparr> two_parts))) = [1]
   \<and> resolves_frozen 1 (snd (create_assembly_version no_faults designer_user 6 1
        \<lparr>avr_version_label = None, avr_part_version_ids = [1], avr_working_path = None\<rparr> two_parts))"
proof -
  let ?missing = "\<lparr>avr_version_label = None, avr_part_version_ids = [1, 7], avr_working_path = None\<rparr>"
  let ?good = "\<lparr>avr_version_label = None, avr_part_version_ids = [1], avr_working_path = None\<rparr>"
  let ?working = "\<lparr>ar_assembly_code = ''ASM-2'', ar_name = ''Cover'', ar_part_version_ids = [1, 2],
          ar_working_path = None, ar_description = None\<rparr>"
  have keys: "part_version_keys two_parts"
    by (simp add: part_version_keys_def two_parts_value)
  have n7: "\<not> resolves 7 two_parts" and u2: "resolves_unfrozen 2 two_parts"
    by (simp_all add: resolves_def resolves_unfrozen_def two_parts_value)
  have reach: "version_lookup_reached no_faults 1 ?missing two_parts"
    by (simp add: version_lookup_reached_def no_faults_def blocks_new_version_def
        getLatestAssemblyVersion_def latest_row_def two_parts_value)
  have reach': "assembly_lookup_reached no_faults designer_user ?working"
    by (simp add: assembly_lookup_reached_def no_faults_def designer_user_def truthy_def)
  have all: "distinct (ar_part_version_ids ?working)
      \<and> (\<forall>i \<in> set (ar_part_version_ids ?working). resolves i two_parts)"
    by (simp add: resolves_def two_parts_value)
  obtain r1 s1 where e1: "create_assembly_version no_faults designer_user 6 1 ?missing two_parts = (r1, s1)"
    by (cases "create_assembly_version no_faults designer_user 6 1 ?missing two_parts")
  obtain r2 s2 where e2: "create_assembly no_faults designer_user 6 ?working two_parts = (r2, s2)"
    by (cases "create_assembly no_faults designer_user 6 ?working two_parts")
  obtain r3 s3 where e3: "create_assembly_version no_faults designer_user 6 1 ?good two_parts = (r3, s3)"
    by (cases "create_assembly_version no_faults designer_user 6 1 ?good two_parts")
  have r3: "r3 = Inr (VersionCreated 1 1 ''V1'')"
    using e3 by (simp add: two_parts_value user_defs assembly_defs eval_defs show_nat.simps)
  note a = assembly_built_from_frozen_parts [OF keys e1 e2]
  note b = assembly_built_from_frozen_parts [OF keys e3 e2]
  have m: "r1 = Inl PartVersionsNotFound \<and> s1 = two_parts"
    using a n7 reach by simp
  have w: "r2 = Inl PartVersionsNotFrozen \<and> s2 = two_parts"
    using a u2 reach' all by simp
  have g: "map part_version_id (edges_added two_parts s3) = [1]
      \<and> (\<forall>e \<in> set (edges_added two_parts s3). resolves_frozen (part_version_id e) s3)"
    using b r3 by simp
  then have "\<exists>e \<in> set (edges_added two_parts s3). part_version_id e = 1"
    by (cases "edges_added two_parts s3") auto
  with g have f: "resolves_frozen 1 s3" by auto
  show ?thesis using keys n7 u2 e1 e2 e3 r3 m w g f by simp
qed


section \<open>Frozen versions in reachable stores\<close>

text \<open>
  Claim C3 says that every frozen version in a reachable store has \<open>frozen_by\<close>,
  \<open>frozen_at\<close> and \<open>storage_path\<close> set. Three runs from the empty store end with a
  frozen version that lacks one of them. A part created without a working path and then
  frozen has no storage path: the freeze copies the working path, and there is none. A
  version frozen by the approval of a release request has neither \<open>frozen_by\<close> nor
  \<open>frozen_at\<close>. A version frozen by bulk freeze has no storage path although it has a
  working path.
\<close>

theorem frozen_version_with_null_fields:
  "part_versions (run [(no_faults, designer_user, 1, CreatePart plate),
                       (no_faults, approver_user, 2, FreezePartVersion 1 1)] empty_store)
     = [\<lparr>vid = 1, item_id = 1, version_label = ''V1'', status = Frozen, storage_path = None,
         working_path = None, change_notes = None,
         frozen_by = Some ''APPROVER-01'', frozen_at = Some 2, created_at = 1\<rparr>]
   \<and> part_versions (run [(no_faults, designer_user, 1, CreatePart bracket),
                         (no_faults, designer_user, 2, CreateReleaseRequest
                            \<lparr>rl_item_type = ''part'', rl_item_version_id = Some 1, rl_reason = None\<rparr>),
                         (no_faults, approver_user, 3, ApproveReleaseRequest 1)] empty_store)
     = [\<lparr>vid = 1, item_id = 1, version_label = ''V1'', status = Frozen,
         storage_path = Some ''bracket.step'', working_path = Some ''bracket.step'', change_notes = None,
         frozen_by = None, frozen_at = None, created_at = 1\<rparr>]
   \<and> part_versions (run [(no_faults, designer_user, 1, CreatePart bracket),
                         (no_faults, admin_user, 2, BulkFreeze [1])] empty_store)
     = [\<lparr>vid = 1, item_id = 1, version_label = ''V1'', status = Frozen, storage_path = None,
         working_path = Some ''bracket.step'', change_notes = None,
         frozen_by = Some ''ADMIN-001'', frozen_at = Some 2, created_at = 1\<rparr>]"
  by (simp add: user_defs plate_def bracket_def empty_store_def eval_defs bulk_freeze_def bulk_set_def)

text \<open>Each handler keeps a property of version rows that its inserts and updates keep.\<close>

lemma list_all_update_where:
  "list_all Q rows \<Longrightarrow> (\<And>v. Q v \<Longrightarrow> Q (f v)) \<Longrightarrow> list_all Q (update_where P f rows)"
  by (induction rows) (auto simp: update_where_def)

lemma list_all_delete_where: "list_all Q rows \<Longrightarrow> list_all Q (delete_where P rows)"
  by (induction rows) (auto simp: delete_where_def)

lemmas table_steps = Let_def insert_part_version_def insert_assembly_version_def
  insert_edges_def list_all_update_where list_all_delete_where

lemma create_part_tables:
  assumes "\<And>i p l w n t. P (new_version i p l w n t)"
    and "list_all P (part_versions s)" and "list_all A (assembly_versions s)"
  shows "list_all P (part_versions (snd (create_part fl u now rq s)))
       \<and> list_all A (assembly_versions (snd (create_part fl u now rq s)))"
  using assms by (auto simp: create_part_def table_steps)

lemma create_part_version_tables:
  assumes "\<And>i p l w n t. P (new_version i p l w n t)"
    and "list_all P (part_versions s)" and "list_all A (assembly_versions s)"
  shows "list_all P (part_versions (snd (create_part_version fl u now p rq s)))
       \<and> list_all A (assembly_versions (snd (create_part_version fl u now p rq s)))"
  using assms by (auto simp: create_part_version_def table_steps split: sum.splits)

lemma rollback_part_tables:
  assumes "\<And>i p l w n t. P (new_version i p l w n t)"
    and "list_all P (part_versions s)" and "list_all A (assembly_versions s)"
  shows "list_all P (part_versions (snd (rollback_part fl u now p v s)))
       \<and> list_all A (assembly_versions (snd (rollback_part fl u now p v s)))"
  using assms by (auto simp: rollback_part_def table_steps split: sum.splits)

lemma create_assembly_tables:
  assumes "\<And>i p l w n t. A (new_version i p l w n t)"
    and "list_all P (part_versions s)" and "list_all A (assembly_versions s)"
  shows "list_all P (part_versions (snd (create_assembly fl u now rq s)))
       \<and> list_all A (assembly_versions (snd (create_assembly fl u now rq s)))"
  using assms by (auto simp: create_assembly_def table_steps)

lemma create_assembly_version_tables:
  assumes "\<And>i p l w n t. A (new_version i p l w n t)"
    and "list_all P (part_versions s)" and "list_all A (assembly_versions s)"
  shows "list_all P (part_versions (snd (create_assembly_version fl u now a rq s)))
       \<and> list_all A (assembly_versions (snd (create_assembly_version fl u now a rq s)))"
  using assms by (auto simp: create_assembly_version_def table_steps)

lemma freeze_part_version_tables:
  assumes "\<And>uid t v. P v \<Longrightarrow> P (freeze_set uid t v)"
    and "list_all P (part_versions s)" and "list_all A (assembly_versions s)"
  shows "list_all P (part_versions (snd (freeze_part_version fl u now p v s)))
       \<and> list_all A (assembly_versions (snd (freeze_part_version fl u now p v s)))"
  using assms by (auto simp: freeze_part_version_def table_steps)

lemma freeze_assembly_version_tables:
  assumes "\<And>uid t v. A v \<Longrightarrow> A (freeze_set uid t v)"
    and "list_all P (part_versions s)" and "list_all A (assembly_versions s)"
  shows "list_all P (part_versions (snd (freeze_assembly_version fl u now a v s)))
       \<and> list_all A (assembly_versions (snd (freeze_assembly_version fl u now a v s)))"
  using assms by (auto simp: freeze_assembly_version_def table_steps)

lemma bulk_freeze_tables:
  assumes "\<And>uid t v. P v \<Longrightarrow> P (bulk_set uid t v)"
    and "list_all P (part_versions s)" and "list_all A (assembly_versions s)"
  shows "list_all P (part_versions (snd (bulk_freeze fl u now ids s)))
       \<and> list_all A (assembly_versions (snd (bulk_freeze fl u now ids s)))"
  using assms by (auto simp: bulk_freeze_def table_steps)

lemma approve_release_request_tables:
  assumes "\<And>v. P v \<Longrightarrow> P (release_set v)" and "\<And>v. A v \<Longrightarrow> A (release_set v)"
    and "list_all P (part_versions s)" and "list_all A (assembly_versions s)"
  shows "list_all P (part_versions (snd (approve_release_request fl u now q s)))
       \<and> list_all A (assembly_versions (snd (approve_release_request fl u now q s)))"
  using assms by (auto simp: approve_release_request_def table_steps split: option.splits)

lemma delete_tables:
  assumes "list_all P (part_versions s)" and "list_all A (assembly_versions s)"
  shows "list_all P (part_versions (snd (delete_part fl u p s)))
       \<and> list_all A (assembly_versions (snd (delete_part fl u p s)))"
    and "list_all P (part_versions (snd (delete_assembly fl u a s)))
       \<and> list_all A (assembly_versions (snd (delete_assembly fl u a s)))"
    and "list_all P (part_versions (snd (bulk_delete fl u ids s)))
       \<and> list_all A (assembly_versions (snd (bulk_delete fl u ids s)))"
  using assms
  by (auto simp: delete_part_def delete_assembly_def bulk_delete_def table_steps)

lemma request_tables:
  "part_versions (snd (create_edit_request fl u p reason s)) = part_versions s"
  "assembly_versions (snd (create_edit_request fl u p reason s)) = assembly_versions s"
  "part_versions (snd (approve_edit_request fl u now q s)) = part_versions s"
  "assembly_versions (snd (approve_edit_request fl u now q s)) = assembly_versions s"
  "part_versions (snd (reject_edit_request fl u now q s)) = part_versions s"
  "assembly_versions (snd (reject_edit_request fl u now q s)) = assembly_versions s"
  "part_versions (snd (create_release_request fl u rq s)) = part_versions s"
  "assembly_versions (snd (create_release_request fl u rq s)) = assembly_versions s"
  "part_versions (snd (reject_release_request fl u now q s)) = part_versions s"
  "assembly_versions (snd (reject_release_request fl u now q s)) = assembly_versions s"
  by (auto simp: create_edit_request_def approve_edit_request_def reject_edit_request_def
      create_release_request_def reject_release_request_def Let_def split: option.splits)

lemma handle_tables:
  assumes newP: "\<And>i p l w n t. P (new_version i p l w n t)"
    and newA: "\<And>i p l w n t. A (new_version i p l w n t)"
    and frzP: "\<And>uid t v. P v \<Longrightarrow> P (freeze_set uid t v)"
    and frzA: "\<And>uid t v. A v \<Longrightarrow> A (freeze_set uid t v)"
    and blk: "\<And>uid t v. is_bulk_freeze rq \<Longrightarrow> P v \<Longrightarrow> P (bulk_set uid t v)"
    and relP: "\<And>v. is_release_approval rq \<Longrightarrow> P v \<Longrightarrow> P (release_set v)"
    and relA: "\<And>v. is_release_approval rq \<Longrightarrow> A v \<Longrightarrow> A (release_set v)"
    and invP: "list_all P (part_versions s)" and invA: "list_all A (assembly_versions s)"
  shows "list_all P (part_versions (handle fl u now rq s))
       \<and> list_all A (assembly_versions (handle fl u now rq s))"
proof (cases rq)
  case (CreatePart x)
  then show ?thesis using create_part_tables [of P, OF newP invP invA] by simp
next
  case (CreatePartVersion p x)
  then show ?thesis using create_part_version_tables [of P, OF newP invP invA] by simp
next
  case (FreezePartVersion p v)
  then show ?thesis using freeze_part_version_tables [of P, OF frzP invP invA] by simp
next
  case (RollbackPart p v)
  then show ?thesis using rollback_part_tables [of P, OF newP invP invA] by simp
next
  case (DeletePart p)
  then show ?thesis using delete_tables(1) [OF invP invA] by simp
next
  case (CreateAssembly x)
  then show ?thesis using create_assembly_tables [of A, OF newA invP invA] by simp
next
  case (CreateAssemblyVersion a x)
  then show ?thesis using create_assembly_version_tables [of A, OF newA invP invA] by simp
next
  case (FreezeAssemblyVersion a v)
  then show ?thesis using freeze_assembly_version_tables [of A, OF frzA invP invA] by simp
next
  case (DeleteAssembly a)
  then show ?thesis using delete_tables(2) [OF invP invA] by simp
next
  case (CreateEditRequest p x)
  then show ?thesis using invP invA by (simp add: request_tables)
next
  case (ApproveEditRequest q)
  then show ?thesis using invP invA by (simp add: request_tables)
next
  case (RejectEditRequest q)
  then show ?thesis using invP invA by (simp add: request_tables)
next
  case (CreateReleaseRequest x)
  then show ?thesis using invP invA by (simp add: request_tables)
next
  case (ApproveReleaseRequest q)
  then have p: "\<And>v. P v \<Longrightarrow> P (release_set v)" and a: "\<And>v. A v \<Longrightarrow> A (release_set v)"
    using relP relA by simp_all
  from approve_release_request_tables [of P A, OF p a invP invA] ApproveReleaseRequest
  show ?thesis by simp
next
  case (RejectReleaseRequest q)
  then show ?thesis using invP invA by (simp add: request_tables)
next
  case (BulkDelete ids)
  then show ?thesis using delete_tables(3) [OF invP invA] by simp
next
  case (BulkFreeze ids)
  then have "\<And>uid t v. P v \<Longrightarrow> P (bulk_set uid t v)" using blk by simp
  from bulk_freeze_tables [of P, OF this invP invA] BulkFreeze
  show ?thesis by simp
qed


lemma provenance_mono:
  "list_all (has_provenance T) rows \<Longrightarrow> list_all (has_provenance (T \<union> X)) rows"
  by (auto simp: list_all_iff has_provenance_def)

lemma path_mono:
  "list_all (has_path T) rows \<Longrightarrow> list_all (has_path (T \<union> X)) rows"
  by (auto simp: list_all_iff has_path_def)

lemma turned_frozen_member:
  assumes "v \<in> set rows" and "status v = Working" and "w \<in> set rows'" and "status w = Frozen"
    and "vid w = vid v"
  shows "vid v \<in> set (turned_frozen rows rows')"
proof -
  have "list_ex (\<lambda>x. vid x = vid w \<and> status x = Working) rows"
    using assms(1,2,5) by (auto simp: list_ex_iff)
  with assms(3,4) have "w \<in> set (filter (\<lambda>w. status w = Frozen
      \<and> list_ex (\<lambda>x. vid x = vid w \<and> status x = Working) rows) rows')"
    by simp
  then have "vid w \<in> set (turned_frozen rows rows')"
    unfolding turned_frozen_def by (simp only: set_map) (rule imageI)
  with assms(5) show ?thesis by simp
qed

lemma release_taint:
  assumes "list_all (has_provenance T) rows"
  shows "list_all (has_provenance (T \<union> set (turned_frozen rows (update_where H release_set rows))))
           (update_where H release_set rows)"
  unfolding list_all_iff
proof
  let ?rows' = "update_where H release_set rows"
  fix w assume w: "w \<in> set ?rows'"
  then obtain v where v: "v \<in> set rows" and wv: "w = v \<or> w = release_set v"
    by (auto simp: update_where_def split: if_splits)
  from assms v have pv: "has_provenance T v" by (simp add: list_all_iff)
  show "has_provenance (T \<union> set (turned_frozen rows ?rows')) w"
  proof (cases "status v")
    case Frozen
    with pv wv show ?thesis by (auto simp: has_provenance_def release_set_def)
  next
    case Working
    show ?thesis
    proof (cases "status w = Frozen")
      case True
      with wv Working have "vid w = vid v" by (auto simp: release_set_def)
      with turned_frozen_member [OF v Working w True] show ?thesis
        by (simp add: has_provenance_def)
    next
      case False
      then show ?thesis by (simp add: has_provenance_def)
    qed
  qed
qed

lemma bulk_taint:
  assumes "list_all (has_path T) rows"
  shows "list_all (has_path (T \<union> set (turned_frozen rows
              (update_where (\<lambda>v. vid v \<in> I \<and> status v = Working) (bulk_set uid t) rows))))
           (update_where (\<lambda>v. vid v \<in> I \<and> status v = Working) (bulk_set uid t) rows)"
  unfolding list_all_iff
proof
  let ?rows' = "update_where (\<lambda>v. vid v \<in> I \<and> status v = Working) (bulk_set uid t) rows"
  fix w assume w: "w \<in> set ?rows'"
  then obtain v where v: "v \<in> set rows"
    and wv: "w = v \<or> (w = bulk_set uid t v \<and> status v = Working)"
    by (auto simp: update_where_def split: if_splits)
  from assms v have pv: "has_path T v" by (simp add: list_all_iff)
  from wv show "has_path (T \<union> set (turned_frozen rows ?rows')) w"
  proof
    assume "w = v"
    with pv show ?thesis by (auto simp: has_path_def)
  next
    assume b: "w = bulk_set uid t v \<and> status v = Working"
    then have "status w = Frozen" "vid w = vid v" by (simp_all add: bulk_set_def)
    with turned_frozen_member [OF v _ w] b show ?thesis by (simp add: has_path_def)
  qed
qed

lemma approve_provenance:
  assumes "list_all (has_provenance Tp) (part_versions s)"
    and "list_all (has_provenance Ta) (assembly_versions s)"
  shows "list_all (has_provenance (Tp \<union> set (turned_frozen (part_versions s)
              (part_versions (snd (approve_release_request fl u now q s))))))
           (part_versions (snd (approve_release_request fl u now q s)))
       \<and> list_all (has_provenance (Ta \<union> set (turned_frozen (assembly_versions s)
              (assembly_versions (snd (approve_release_request fl u now q s))))))
           (assembly_versions (snd (approve_release_request fl u now q s)))"
  using assms release_taint [OF assms(1)] release_taint [OF assms(2)]
  by (auto simp: approve_release_request_def Let_def provenance_mono split: option.splits)

lemma bulk_path:
  assumes "list_all (has_path T) (part_versions s)" and "list_all (has_path {}) (assembly_versions s)"
  shows "list_all (has_path (T \<union> set (turned_frozen (part_versions s)
              (part_versions (snd (bulk_freeze fl u now ids s))))))
           (part_versions (snd (bulk_freeze fl u now ids s)))
       \<and> list_all (has_path {}) (assembly_versions (snd (bulk_freeze fl u now ids s)))"
  using assms bulk_taint [OF assms(1)]
  by (auto simp: bulk_freeze_def Let_def path_mono)

lemma provenance_step:
  assumes "list_all (has_provenance Tp) (part_versions s)"
    and "list_all (has_provenance Ta) (assembly_versions s)"
  shows "list_all (has_provenance (Tp \<union> set (if is_release_approval rq
              then turned_frozen (part_versions s) (part_versions (handle fl u now rq s)) else [])))
           (part_versions (handle fl u now rq s))
       \<and> list_all (has_provenance (Ta \<union> set (if is_release_approval rq
              then turned_frozen (assembly_versions s) (assembly_versions (handle fl u now rq s)) else [])))
           (assembly_versions (handle fl u now rq s))"
proof (cases "is_release_approval rq")
  case True
  then obtain q where "rq = ApproveReleaseRequest q" by (cases rq) auto
  with approve_provenance [OF assms] show ?thesis by simp
next
  case False
  have "list_all (has_provenance Tp) (part_versions (handle fl u now rq s))
      \<and> list_all (has_provenance Ta) (assembly_versions (handle fl u now rq s))"
    using False assms
    by (intro handle_tables)
       (auto simp: has_provenance_def new_version_def freeze_set_def bulk_set_def)
  with False show ?thesis by simp
qed

lemma path_step:
  assumes "list_all (has_path T) (part_versions s)" and "list_all (has_path {}) (assembly_versions s)"
  shows "list_all (has_path (T \<union> set (if is_bulk_freeze rq
              then turned_frozen (part_versions s) (part_versions (handle fl u now rq s)) else [])))
           (part_versions (handle fl u now rq s))
       \<and> list_all (has_path {}) (assembly_versions (handle fl u now rq s))"
proof (cases "is_bulk_freeze rq")
  case True
  then obtain ids where "rq = BulkFreeze ids" by (cases rq) auto
  with bulk_path [OF assms] show ?thesis by simp
next
  case False
  have "list_all (has_path T) (part_versions (handle fl u now rq s))
      \<and> list_all (has_path {}) (assembly_versions (handle fl u now rq s))"
    using False assms
    by (intro handle_tables)
       (auto simp: has_path_def new_version_def freeze_set_def release_set_def coalesce_def
          split: option.splits)
  with False show ?thesis by simp
qed

lemma working_step:
  assumes "list_all path_from_working (part_versions s)"
    and "list_all path_from_working (assembly_versions s)"
  shows "list_all path_from_working (part_versions (handle fl u now rq s))
       \<and> list_all path_from_working (assembly_versions (handle fl u now rq s))"
  using assms
  by (intro handle_tables)
     (auto simp: path_from_working_def new_version_def freeze_set_def release_set_def bulk_set_def
        coalesce_def split: option.splits)

lemma provenance_run:
  "list_all (has_provenance Tp) (part_versions s) \<Longrightarrow>
   list_all (has_provenance Ta) (assembly_versions s) \<Longrightarrow>
   list_all (has_provenance (Tp \<union> set (frozen_in_calls is_release_approval part_versions cs s)))
     (part_versions (run cs s))
   \<and> list_all (has_provenance (Ta \<union> set (frozen_in_calls is_release_approval assembly_versions cs s)))
     (assembly_versions (run cs s))"
proof (induction cs arbitrary: s Tp Ta)
  case Nil
  then show ?case by simp
next
  case (Cons c cs)
  obtain fl u now rq where c: "c = (fl, u, now, rq)" by (cases c) auto
  from provenance_step [OF Cons.prems, of rq fl u now]
  have "list_all (has_provenance (Tp \<union> set (if is_release_approval rq
              then turned_frozen (part_versions s) (part_versions (handle fl u now rq s)) else [])))
           (part_versions (handle fl u now rq s))"
    and "list_all (has_provenance (Ta \<union> set (if is_release_approval rq
              then turned_frozen (assembly_versions s) (assembly_versions (handle fl u now rq s)) else [])))
           (assembly_versions (handle fl u now rq s))"
    by simp_all
  from Cons.IH [OF this] c show ?case by (simp add: Un_assoc)
qed

lemma path_run:
  "list_all (has_path T) (part_versions s) \<Longrightarrow>
   list_all (has_path {}) (assembly_versions s) \<Longrightarrow>
   list_all (has_path (T \<union> set (frozen_in_calls is_bulk_freeze part_versions cs s)))
     (part_versions (run cs s))
   \<and> list_all (has_path {}) (assembly_versions (run cs s))"
proof (induction cs arbitrary: s T)
  case Nil
  then show ?case by simp
next
  case (Cons c cs)
  obtain fl u now rq where c: "c = (fl, u, now, rq)" by (cases c) auto
  from path_step [OF Cons.prems, of rq fl u now]
  have "list_all (has_path (T \<union> set (if is_bulk_freeze rq
              then turned_frozen (part_versions s) (part_versions (handle fl u now rq s)) else [])))
           (part_versions (handle fl u now rq s))"
    and "list_all (has_path {}) (assembly_versions (handle fl u now rq s))"
    by simp_all
  from Cons.IH [OF this] c show ?case by (simp add: Un_assoc)
qed

lemma working_run:
  "list_all path_from_working (part_versions s) \<Longrightarrow>
   list_all path_from_working (assembly_versions s) \<Longrightarrow>
   list_all path_from_working (part_versions (run cs s))
   \<and> list_all path_from_working (assembly_versions (run cs s))"
proof (induction cs arbitrary: s)
  case Nil
  then show ?case by simp
next
  case (Cons c cs)
  obtain fl u now rq where c: "c = (fl, u, now, rq)" by (cases c) auto
  from working_step [OF Cons.prems, of fl u now rq]
  have "list_all path_from_working (part_versions (handle fl u now rq s))"
    and "list_all path_from_working (assembly_versions (handle fl u now rq s))"
    by simp_all
  from Cons.IH [OF this] c show ?case by simp
qed

lemma empty_store_tables: "part_versions empty_store = []" "assembly_versions empty_store = []"
  by (simp_all add: empty_store_def)

text \<open>
  Claim C3, amended. Take a frozen version in a store reached from the empty store by
  any sequence of calls, whichever statements fail. It has \<open>frozen_by\<close> and \<open>frozen_at\<close>
  set, unless the approval of a release request is what turned it from working to
  frozen. If it has a working path it has a storage path, unless a bulk freeze is what
  turned it from working to frozen; bulk freeze does not reach assembly versions, so for
  them there is no exception. If it has no working path it has no storage path.
\<close>

theorem frozen_versions_by_design:
  assumes "status v = Frozen"
  shows "(v \<in> set (part_versions (run cs empty_store)) \<longrightarrow>
            (vid v \<notin> set (frozen_in_calls is_release_approval part_versions cs empty_store) \<longrightarrow>
               frozen_by v \<noteq> None \<and> frozen_at v \<noteq> None)
          \<and> (vid v \<notin> set (frozen_in_calls is_bulk_freeze part_versions cs empty_store)
               \<and> working_path v \<noteq> None \<longrightarrow> storage_path v \<noteq> None)
          \<and> (working_path v = None \<longrightarrow> storage_path v = None))
       \<and> (v \<in> set (assembly_versions (run cs empty_store)) \<longrightarrow>
            (vid v \<notin> set (frozen_in_calls is_release_approval assembly_versions cs empty_store) \<longrightarrow>
               frozen_by v \<noteq> None \<and> frozen_at v \<noteq> None)
          \<and> (working_path v \<noteq> None \<longrightarrow> storage_path v \<noteq> None)
          \<and> (working_path v = None \<longrightarrow> storage_path v = None))"
proof -
  have a: "list_all (has_provenance ({} \<union> set (frozen_in_calls is_release_approval part_versions cs empty_store)))
     (part_versions (run cs empty_store))
   \<and> list_all (has_provenance ({} \<union> set (frozen_in_calls is_release_approval assembly_versions cs empty_store)))
     (assembly_versions (run cs empty_store))"
    by (rule provenance_run) (simp_all add: empty_store_tables)
  have b: "list_all (has_path ({} \<union> set (frozen_in_calls is_bulk_freeze part_versions cs empty_store)))
     (part_versions (run cs empty_store))
   \<and> list_all (has_path {}) (assembly_versions (run cs empty_store))"
    by (rule path_run) (simp_all add: empty_store_tables)
  have c: "list_all path_from_working (part_versions (run cs empty_store))
   \<and> list_all path_from_working (assembly_versions (run cs empty_store))"
    by (rule working_run) (simp_all add: empty_store_tables)
  show ?thesis
    using a b c assms
    by (auto simp: list_all_iff has_provenance_def has_path_def path_from_working_def)
qed


text \<open>
  The run that freezes three versions in three ways. The approval turned version 2
  frozen and the bulk freeze version 3, and nothing else: the approval of the missing
  request and the bulk freeze of frozen versions set no version aside. Version 1 has all
  three fields; version 2 has no working path and no storage path; version 3 has
  \<open>frozen_by\<close> and \<open>frozen_at\<close>.
\<close>

lemmas mixed_eval = mixed_calls_def user_defs bracket_def plate_def cover_def empty_store_def eval_defs
  bulk_freeze_def bulk_set_def turned_frozen_def

lemma mixed_rows: "part_versions (run mixed_calls empty_store) =
   [\<lparr>vid = 1, item_id = 1, version_label = ''V1'', status = Frozen, storage_path = Some ''bracket.step'',
      working_path = Some ''bracket.step'', change_notes = None,
      frozen_by = Some ''APPROVER-01'', frozen_at = Some 2, created_at = 1\<rparr>,
    \<lparr>vid = 2, item_id = 2, version_label = ''V1'', status = Frozen, storage_path = None,
      working_path = None, change_notes = None, frozen_by = None, frozen_at = None, created_at = 4\<rparr>,
    \<lparr>vid = 3, item_id = 3, version_label = ''V1'', status = Frozen, storage_path = None,
      working_path = Some ''cover.step'', change_notes = None,
      frozen_by = Some ''ADMIN-001'', frozen_at = Some 9, created_at = 8\<rparr>]"
  by (simp add: mixed_eval)

lemma mixed_taint:
  "frozen_in_calls is_release_approval part_versions mixed_calls empty_store = [2]"
  "frozen_in_calls is_bulk_freeze part_versions mixed_calls empty_store = [3]"
  by (simp_all add: mixed_eval)


theorem frozen_versions_by_design_witness:
  "(let s = run mixed_calls empty_store;
        v1 = \<lparr>vid = 1, item_id = 1, version_label = ''V1'', status = Frozen,
              storage_path = Some ''bracket.step'', working_path = Some ''bracket.step'',
              change_notes = None, frozen_by = Some ''APPROVER-01'', frozen_at = Some 2,
              created_at = 1\<rparr>;
        v2 = \<lparr>vid = 2, item_id = 2, version_label = ''V1'', status = Frozen, storage_path = None,
              working_path = None, change_notes = None, frozen_by = None, frozen_at = None,
              created_at = 4\<rparr>;
        v3 = \<lparr>vid = 3, item_id = 3, version_label = ''V1'', status = Frozen, storage_path = None,
              working_path = Some ''cover.step'', change_notes = None,
              frozen_by = Some ''ADMIN-001'', frozen_at = Some 9, created_at = 8\<rparr>
    in part_versions s = [v1, v2, v3]
       \<and> frozen_in_calls is_release_approval part_versions mixed_calls empty_store = [2]
       \<and> frozen_in_calls is_bulk_freeze part_versions mixed_calls empty_store = [3]
       \<and> status v1 = Frozen \<and> frozen_by v1 \<noteq> None \<and> frozen_at v1 \<noteq> None
       \<and> working_path v1 \<noteq> None \<and> storage_path v1 \<noteq> None
       \<and> status v2 = Frozen \<and> working_path v2 = None \<and> storage_path v2 = None
       \<and> status v3 = Frozen \<and> frozen_by v3 \<noteq> None \<and> frozen_at v3 \<noteq> None)"
proof -
  let ?v1 = "\<lparr>vid = 1, item_id = 1, version_label = ''V1'', status = Frozen,
              storage_path = Some ''bracket.step'', working_path = Some ''bracket.step'',
              change_notes = None, frozen_by = Some ''APPROVER-01'', frozen_at = Some 2,
              created_at = 1\<rparr>"
  let ?v2 = "\<lparr>vid = 2, item_id = 2, version_label = ''V1'', status = Frozen, storage_path = None,
              working_path = None, change_notes = None, frozen_by = None, frozen_at = None,
              created_at = 4\<rparr>"
  let ?v3 = "\<lparr>vid = 3, item_id = 3, version_label = ''V1'', status = Frozen, storage_path = None,
              working_path = Some ''cover.step'', change_notes = None,
              frozen_by = Some ''ADMIN-001'', frozen_at = Some 9, created_at = 8\<rparr>"
  have rows: "part_versions (run mixed_calls empty_store) = [?v1, ?v2, ?v3]"
    by (rule mixed_rows)
  have m1: "?v1 \<in> set (part_versions (run mixed_calls empty_store))"
    and m2: "?v2 \<in> set (part_versions (run mixed_calls empty_store))"
    and m3: "?v3 \<in> set (part_versions (run mixed_calls empty_store))"
    by (simp_all add: rows)
  have s1: "status ?v1 = Frozen" and s2: "status ?v2 = Frozen" and s3: "status ?v3 = Frozen"
    by simp_all
  have n1: "vid ?v1 \<notin> set [2::nat]" "vid ?v1 \<notin> set [3::nat]" "working_path ?v1 \<noteq> None"
    and n2: "working_path ?v2 = None"
    and n3: "vid ?v3 \<notin> set [2::nat]"
    by simp_all
  have a: "frozen_by ?v1 \<noteq> None \<and> frozen_at ?v1 \<noteq> None \<and> storage_path ?v1 \<noteq> None"
    using frozen_versions_by_design [OF s1, of mixed_calls] m1 n1 unfolding mixed_taint by blast
  have b: "storage_path ?v2 = None"
    using frozen_versions_by_design [OF s2, of mixed_calls] m2 n2 by blast
  have c: "frozen_by ?v3 \<noteq> None \<and> frozen_at ?v3 \<noteq> None"
    using frozen_versions_by_design [OF s3, of mixed_calls] m3 n3 unfolding mixed_taint by blast
  show ?thesis
    unfolding Let_def using rows mixed_taint s1 s2 s3 n1(3) n2 a b c by blast
qed


section \<open>Row ids in reachable stores\<close>

text \<open>
  Part versions have distinct ids in every store reached from the empty store, whatever
  the calls and whichever statements fail: inserts take the next number of the
  sequence, updates keep the id, deletes only remove rows.
\<close>

lemma vid_update_where:
  "(\<And>v. vid (f v) = vid v) \<Longrightarrow> map vid (update_where P f rows) = map vid rows"
  by (induction rows) (auto simp: update_where_def)

lemma set_update_where_vid:
  "(\<And>v. vid (f v) = vid v) \<Longrightarrow> w \<in> set (update_where P f rows) \<Longrightarrow> \<exists>v \<in> set rows. vid v = vid w"
  by (induction rows) (auto simp: update_where_def split: if_splits)

lemma vid_set_clauses [simp]:
  "vid (freeze_set uid t v) = vid v" "vid (bulk_set uid t v) = vid v" "vid (release_set v) = vid v"
  by (simp_all add: freeze_set_def bulk_set_def release_set_def)

lemma numbered_insert:
  "part_versions_numbered s \<Longrightarrow> part_versions_numbered (insert_part_version p l w n t s)"
  by (auto simp: part_versions_numbered_def part_version_keys_def insert_part_version_def new_version_def)

lemma numbered_update:
  assumes "part_versions_numbered s" and "\<And>v. vid (f v) = vid v"
  shows "part_versions_numbered (s\<lparr>part_versions := update_where P f (part_versions s)\<rparr>)"
  using assms set_update_where_vid [of f _ P "part_versions s"]
  by (fastforce simp: part_versions_numbered_def part_version_keys_def vid_update_where)

lemma numbered_delete:
  "part_versions_numbered s \<Longrightarrow>
   part_versions_numbered (s\<lparr>part_versions := delete_where P (part_versions s)\<rparr>)"
  by (auto simp: part_versions_numbered_def part_version_keys_def delete_where_def distinct_map_filter)

lemma numbered_frame:
  "part_versions s' = part_versions s \<Longrightarrow> seq_part_versions s' = seq_part_versions s \<Longrightarrow>
   part_versions_numbered s \<Longrightarrow> part_versions_numbered s'"
  by (simp add: part_versions_numbered_def part_version_keys_def)

lemma handle_numbered:
  assumes "part_versions_numbered s"
  shows "part_versions_numbered (handle fl u now rq s)"
proof (cases rq)
  case (CreatePart x)
  have "part_versions_numbered (snd (create_part fl u now x s))"
    using assms numbered_insert [of "s\<lparr>parts := parts s @ [\<lparr>pid = seq_parts s + 1, part_code = rq_part_code x, p_owner_id = u_id u\<rparr>], seq_parts := seq_parts s + 1\<rparr>"]
    by (auto simp: create_part_def Let_def part_versions_numbered_def part_version_keys_def)
  with CreatePart show ?thesis by simp
next
  case (CreatePartVersion p x)
  then show ?thesis using assms
    by (auto simp: create_part_version_def Let_def numbered_insert split: sum.splits)
next
  case (FreezePartVersion p v)
  then show ?thesis using assms
    by (auto simp: freeze_part_version_def Let_def numbered_update)
next
  case (RollbackPart p v)
  then show ?thesis using assms
    by (auto simp: rollback_part_def Let_def numbered_insert split: sum.splits)
next
  case (DeletePart p)
  have "part_versions_numbered (snd (delete_part fl u p s))"
    using numbered_delete [OF assms, of "\<lambda>v. item_id v = p"]
    by (auto simp: delete_part_def Let_def assms elim: numbered_frame [rotated 2])
  with DeletePart show ?thesis by simp
next
  case (CreateAssembly x)
  have "part_versions_numbered (snd (create_assembly fl u now x s))"
    by (rule numbered_frame [OF _ _ assms])
       (auto simp: create_assembly_def Let_def insert_assembly_version_def insert_edges_def)
  with CreateAssembly show ?thesis by simp
next
  case (CreateAssemblyVersion a x)
  have "part_versions_numbered (snd (create_assembly_version fl u now a x s))"
    by (rule numbered_frame [OF _ _ assms])
       (auto simp: create_assembly_version_def Let_def insert_assembly_version_def insert_edges_def)
  with CreateAssemblyVersion show ?thesis by simp
next
  case (FreezeAssemblyVersion a v)
  have "part_versions_numbered (snd (freeze_assembly_version fl u now a v s))"
    by (rule numbered_frame [OF _ _ assms]) (auto simp: freeze_assembly_version_def Let_def)
  with FreezeAssemblyVersion show ?thesis by simp
next
  case (DeleteAssembly a)
  have "part_versions_numbered (snd (delete_assembly fl u a s))"
    by (rule numbered_frame [OF _ _ assms]) (auto simp: delete_assembly_def Let_def)
  with DeleteAssembly show ?thesis by simp
next
  case (CreateEditRequest p x)
  have "part_versions_numbered (snd (create_edit_request fl u p x s))"
    by (rule numbered_frame [OF _ _ assms]) (auto simp: create_edit_request_def Let_def)
  with CreateEditRequest show ?thesis by simp
next
  case (ApproveEditRequest q)
  have "part_versions_numbered (snd (approve_edit_request fl u now q s))"
    by (rule numbered_frame [OF _ _ assms])
       (auto simp: approve_edit_request_def Let_def split: option.splits)
  with ApproveEditRequest show ?thesis by simp
next
  case (RejectEditRequest q)
  have "part_versions_numbered (snd (reject_edit_request fl u now q s))"
    by (rule numbered_frame [OF _ _ assms]) (auto simp: reject_edit_request_def Let_def)
  with RejectEditRequest show ?thesis by simp
next
  case (CreateReleaseRequest x)
  have "part_versions_numbered (snd (create_release_request fl u x s))"
    by (rule numbered_frame [OF _ _ assms]) (auto simp: create_release_request_def Let_def)
  with CreateReleaseRequest show ?thesis by simp
next
  case (ApproveReleaseRequest q)
  have "part_versions_numbered (snd (approve_release_request fl u now q s))"
    using assms numbered_update [of "s\<lparr>release_requests := update_where (\<lambda>r. rr_id r = q)
        (decide_release Approved (u_id u) now) (release_requests s)\<rparr>" release_set]
    by (auto simp: approve_release_request_def Let_def part_versions_numbered_def part_version_keys_def
        split: option.splits)
  with ApproveReleaseRequest show ?thesis by simp
next
  case (RejectReleaseRequest q)
  have "part_versions_numbered (snd (reject_release_request fl u now q s))"
    by (rule numbered_frame [OF _ _ assms]) (auto simp: reject_release_request_def Let_def)
  with RejectReleaseRequest show ?thesis by simp
next
  case (BulkDelete ids)
  have "part_versions_numbered (snd (bulk_delete fl u ids s))"
    using numbered_delete [OF assms, of "\<lambda>v. item_id v \<in> set ids"] assms
    by (auto simp: bulk_delete_def Let_def part_versions_numbered_def part_version_keys_def)
  with BulkDelete show ?thesis by simp
next
  case (BulkFreeze ids)
  then show ?thesis using assms
    by (auto simp: bulk_freeze_def Let_def numbered_update)
qed

lemma run_numbered: "part_versions_numbered s \<Longrightarrow> part_versions_numbered (run cs s)"
  by (induction cs arbitrary: s) (auto simp: handle_numbered)

lemma reachable_part_version_keys: "part_version_keys (run cs empty_store)"
proof -
  have "part_versions_numbered empty_store"
    by (simp add: part_versions_numbered_def part_version_keys_def empty_store_def)
  then show ?thesis using run_numbered [of empty_store cs] by (simp add: part_versions_numbered_def)
qed



end
